theory Spec2Isabelle
  imports Main
begin

section \<open>Strings of code points\<close>

text \<open>
  A Python \<open>str\<close> is a sequence of Unicode code points, so a string is a list of
  natural numbers here; \<open>ustr\<close> turns an ASCII literal into one.  The en dash is
  8211, the em dash 8212, the no-break space 160.
\<close>

type_synonym uchar = nat
type_synonym ustring = "nat list"

definition ustr :: "string \<Rightarrow> ustring" where
  "ustr cs = map of_char cs"

text \<open>
  \<open>str.isspace\<close>, which is also the class \<open>\s\<close> of \<open>re\<close> on \<open>str\<close> patterns and
  what \<open>str.strip()\<close> removes: the whole Unicode white space table of CPython.
\<close>

definition is_space :: "uchar \<Rightarrow> bool" where
  "is_space c = ((9 \<le> c \<and> c \<le> 13) \<or> (28 \<le> c \<and> c \<le> 32) \<or> c = 133 \<or> c = 160
      \<or> c = 5760 \<or> (8192 \<le> c \<and> c \<le> 8202) \<or> c = 8232 \<or> c = 8233 \<or> c = 8239
      \<or> c = 8287 \<or> c = 12288)"

subsection \<open>The Unicode tables of CPython 3.11\<close>

text \<open>
  The classes \<open>\d\<close> and \<open>\w\<close> of \<open>re\<close> on \<open>str\<close> patterns, \<open>int\<close>, \<open>str.lower\<close> and
  \<open>re.IGNORECASE\<close> read the Unicode 14.0 database of the interpreter.  Its tables
  are ascending lists of ranges of code points, looked up from the left.
\<close>

fun in_ranges :: "(nat \<times> nat) list \<Rightarrow> uchar \<Rightarrow> bool" where
  "in_ranges [] c = False"
| "in_ranges ((lo, hi) # rs) c =
     (if c < lo then False else if c \<le> hi then True else in_ranges rs c)"

text \<open>
  The decimal digits (\<open>str.isdecimal\<close>, the class \<open>\d\<close>): every script has its ten
  digits in a row, and the table gives the code point of each digit zero.
\<close>

definition digit_zeros :: "nat list" where
  "digit_zeros =
    [48, 1632, 1776, 1984, 2406, 2534, 2662, 2790, 2918, 3046, 3174, 3302, 3430, 3558,
     3664, 3792, 3872, 4160, 4240, 6112, 6160, 6470, 6608, 6784, 6800, 6992, 7088, 7232,
     7248, 42528, 43216, 43264, 43472, 43504, 43600, 44016, 65296, 66720, 68912, 69734,
     69872, 69942, 70096, 70384, 70736, 70864, 71248, 71360, 71472, 71904, 72016, 72784,
     73040, 73120, 92768, 92864, 93008, 120782, 120792, 120802, 120812, 120822, 123200,
     123632, 125264, 130032]"

fun decimal_in :: "nat list \<Rightarrow> uchar \<Rightarrow> nat option" where
  "decimal_in [] c = None"
| "decimal_in (z # zs) c =
     (if c < z then None else if c \<le> z + 9 then Some (c - z) else decimal_in zs c)"

definition decimal :: "uchar \<Rightarrow> nat option" where
  "decimal c = decimal_in digit_zeros c"

definition is_digit :: "uchar \<Rightarrow> bool" where
  "is_digit c = (decimal c \<noteq> None)"

definition digit_val :: "uchar \<Rightarrow> nat" where
  "digit_val c = (case decimal c of Some v \<Rightarrow> v | None \<Rightarrow> 0)"

text \<open>The word characters (the class \<open>\w\<close>): \<open>str.isalnum\<close> and the underscore.\<close>

definition word_ranges :: "(nat \<times> nat) list" where
  "word_ranges =
    [(48, 57), (65, 90), (95, 95), (97, 122), (170, 170), (178, 179), (181, 181),
     (185, 186), (188, 190), (192, 214), (216, 246), (248, 705), (710, 721), (736, 740),
     (748, 748), (750, 750), (880, 884), (886, 887), (890, 893), (895, 895), (902, 902),
     (904, 906), (908, 908), (910, 929), (931, 1013), (1015, 1153), (1162, 1327),
     (1329, 1366), (1369, 1369), (1376, 1416), (1488, 1514), (1519, 1522), (1568, 1610),
     (1632, 1641), (1646, 1647), (1649, 1747), (1749, 1749), (1765, 1766), (1774, 1788),
     (1791, 1791), (1808, 1808), (1810, 1839), (1869, 1957), (1969, 1969), (1984, 2026),
     (2036, 2037), (2042, 2042), (2048, 2069), (2074, 2074), (2084, 2084), (2088, 2088),
     (2112, 2136), (2144, 2154), (2160, 2183), (2185, 2190), (2208, 2249), (2308, 2361),
     (2365, 2365), (2384, 2384), (2392, 2401), (2406, 2415), (2417, 2432), (2437, 2444),
     (2447, 2448), (2451, 2472), (2474, 2480), (2482, 2482), (2486, 2489), (2493, 2493),
     (2510, 2510), (2524, 2525), (2527, 2529), (2534, 2545), (2548, 2553), (2556, 2556),
     (2565, 2570), (2575, 2576), (2579, 2600), (2602, 2608), (2610, 2611), (2613, 2614),
     (2616, 2617), (2649, 2652), (2654, 2654), (2662, 2671), (2674, 2676), (2693, 2701),
     (2703, 2705), (2707, 2728), (2730, 2736), (2738, 2739), (2741, 2745), (2749, 2749),
     (2768, 2768), (2784, 2785), (2790, 2799), (2809, 2809), (2821, 2828), (2831, 2832),
     (2835, 2856), (2858, 2864), (2866, 2867), (2869, 2873), (2877, 2877), (2908, 2909),
     (2911, 2913), (2918, 2927), (2929, 2935), (2947, 2947), (2949, 2954), (2958, 2960),
     (2962, 2965), (2969, 2970), (2972, 2972), (2974, 2975), (2979, 2980), (2984, 2986),
     (2990, 3001), (3024, 3024), (3046, 3058), (3077, 3084), (3086, 3088), (3090, 3112),
     (3114, 3129), (3133, 3133), (3160, 3162), (3165, 3165), (3168, 3169), (3174, 3183),
     (3192, 3198), (3200, 3200), (3205, 3212), (3214, 3216), (3218, 3240), (3242, 3251),
     (3253, 3257), (3261, 3261), (3293, 3294), (3296, 3297), (3302, 3311), (3313, 3314),
     (3332, 3340), (3342, 3344), (3346, 3386), (3389, 3389), (3406, 3406), (3412, 3414),
     (3416, 3425), (3430, 3448), (3450, 3455), (3461, 3478), (3482, 3505), (3507, 3515),
     (3517, 3517), (3520, 3526), (3558, 3567), (3585, 3632), (3634, 3635), (3648, 3654),
     (3664, 3673), (3713, 3714), (3716, 3716), (3718, 3722), (3724, 3747), (3749, 3749),
     (3751, 3760), (3762, 3763), (3773, 3773), (3776, 3780), (3782, 3782), (3792, 3801),
     (3804, 3807), (3840, 3840), (3872, 3891), (3904, 3911), (3913, 3948), (3976, 3980),
     (4096, 4138), (4159, 4169), (4176, 4181), (4186, 4189), (4193, 4193), (4197, 4198),
     (4206, 4208), (4213, 4225), (4238, 4238), (4240, 4249), (4256, 4293), (4295, 4295),
     (4301, 4301), (4304, 4346), (4348, 4680), (4682, 4685), (4688, 4694), (4696, 4696),
     (4698, 4701), (4704, 4744), (4746, 4749), (4752, 4784), (4786, 4789), (4792, 4798),
     (4800, 4800), (4802, 4805), (4808, 4822), (4824, 4880), (4882, 4885), (4888, 4954),
     (4969, 4988), (4992, 5007), (5024, 5109), (5112, 5117), (5121, 5740), (5743, 5759),
     (5761, 5786), (5792, 5866), (5870, 5880), (5888, 5905), (5919, 5937), (5952, 5969),
     (5984, 5996), (5998, 6000), (6016, 6067), (6103, 6103), (6108, 6108), (6112, 6121),
     (6128, 6137), (6160, 6169), (6176, 6264), (6272, 6276), (6279, 6312), (6314, 6314),
     (6320, 6389), (6400, 6430), (6470, 6509), (6512, 6516), (6528, 6571), (6576, 6601),
     (6608, 6618), (6656, 6678), (6688, 6740), (6784, 6793), (6800, 6809), (6823, 6823),
     (6917, 6963), (6981, 6988), (6992, 7001), (7043, 7072), (7086, 7141), (7168, 7203),
     (7232, 7241), (7245, 7293), (7296, 7304), (7312, 7354), (7357, 7359), (7401, 7404),
     (7406, 7411), (7413, 7414), (7418, 7418), (7424, 7615), (7680, 7957), (7960, 7965),
     (7968, 8005), (8008, 8013), (8016, 8023), (8025, 8025), (8027, 8027), (8029, 8029),
     (8031, 8061), (8064, 8116), (8118, 8124), (8126, 8126), (8130, 8132), (8134, 8140),
     (8144, 8147), (8150, 8155), (8160, 8172), (8178, 8180), (8182, 8188), (8304, 8305),
     (8308, 8313), (8319, 8329), (8336, 8348), (8450, 8450), (8455, 8455), (8458, 8467),
     (8469, 8469), (8473, 8477), (8484, 8484), (8486, 8486), (8488, 8488), (8490, 8493),
     (8495, 8505), (8508, 8511), (8517, 8521), (8526, 8526), (8528, 8585), (9312, 9371),
     (9450, 9471), (10102, 10131), (11264, 11492), (11499, 11502), (11506, 11507),
     (11517, 11517), (11520, 11557), (11559, 11559), (11565, 11565), (11568, 11623),
     (11631, 11631), (11648, 11670), (11680, 11686), (11688, 11694), (11696, 11702),
     (11704, 11710), (11712, 11718), (11720, 11726), (11728, 11734), (11736, 11742),
     (11823, 11823), (12293, 12295), (12321, 12329), (12337, 12341), (12344, 12348),
     (12353, 12438), (12445, 12447), (12449, 12538), (12540, 12543), (12549, 12591),
     (12593, 12686), (12690, 12693), (12704, 12735), (12784, 12799), (12832, 12841),
     (12872, 12879), (12881, 12895), (12928, 12937), (12977, 12991), (13312, 19903),
     (19968, 42124), (42192, 42237), (42240, 42508), (42512, 42539), (42560, 42606),
     (42623, 42653), (42656, 42735), (42775, 42783), (42786, 42888), (42891, 42954),
     (42960, 42961), (42963, 42963), (42965, 42969), (42994, 43009), (43011, 43013),
     (43015, 43018), (43020, 43042), (43056, 43061), (43072, 43123), (43138, 43187),
     (43216, 43225), (43250, 43255), (43259, 43259), (43261, 43262), (43264, 43301),
     (43312, 43334), (43360, 43388), (43396, 43442), (43471, 43481), (43488, 43492),
     (43494, 43518), (43520, 43560), (43584, 43586), (43588, 43595), (43600, 43609),
     (43616, 43638), (43642, 43642), (43646, 43695), (43697, 43697), (43701, 43702),
     (43705, 43709), (43712, 43712), (43714, 43714), (43739, 43741), (43744, 43754),
     (43762, 43764), (43777, 43782), (43785, 43790), (43793, 43798), (43808, 43814),
     (43816, 43822), (43824, 43866), (43868, 43881), (43888, 44002), (44016, 44025),
     (44032, 55203), (55216, 55238), (55243, 55291), (63744, 64109), (64112, 64217),
     (64256, 64262), (64275, 64279), (64285, 64285), (64287, 64296), (64298, 64310),
     (64312, 64316), (64318, 64318), (64320, 64321), (64323, 64324), (64326, 64433),
     (64467, 64829), (64848, 64911), (64914, 64967), (65008, 65019), (65136, 65140),
     (65142, 65276), (65296, 65305), (65313, 65338), (65345, 65370), (65382, 65470),
     (65474, 65479), (65482, 65487), (65490, 65495), (65498, 65500), (65536, 65547),
     (65549, 65574), (65576, 65594), (65596, 65597), (65599, 65613), (65616, 65629),
     (65664, 65786), (65799, 65843), (65856, 65912), (65930, 65931), (66176, 66204),
     (66208, 66256), (66273, 66299), (66304, 66339), (66349, 66378), (66384, 66421),
     (66432, 66461), (66464, 66499), (66504, 66511), (66513, 66517), (66560, 66717),
     (66720, 66729), (66736, 66771), (66776, 66811), (66816, 66855), (66864, 66915),
     (66928, 66938), (66940, 66954), (66956, 66962), (66964, 66965), (66967, 66977),
     (66979, 66993), (66995, 67001), (67003, 67004), (67072, 67382), (67392, 67413),
     (67424, 67431), (67456, 67461), (67463, 67504), (67506, 67514), (67584, 67589),
     (67592, 67592), (67594, 67637), (67639, 67640), (67644, 67644), (67647, 67669),
     (67672, 67702), (67705, 67742), (67751, 67759), (67808, 67826), (67828, 67829),
     (67835, 67867), (67872, 67897), (67968, 68023), (68028, 68047), (68050, 68096),
     (68112, 68115), (68117, 68119), (68121, 68149), (68160, 68168), (68192, 68222),
     (68224, 68255), (68288, 68295), (68297, 68324), (68331, 68335), (68352, 68405),
     (68416, 68437), (68440, 68466), (68472, 68497), (68521, 68527), (68608, 68680),
     (68736, 68786), (68800, 68850), (68858, 68899), (68912, 68921), (69216, 69246),
     (69248, 69289), (69296, 69297), (69376, 69415), (69424, 69445), (69457, 69460),
     (69488, 69505), (69552, 69579), (69600, 69622), (69635, 69687), (69714, 69743),
     (69745, 69746), (69749, 69749), (69763, 69807), (69840, 69864), (69872, 69881),
     (69891, 69926), (69942, 69951), (69956, 69956), (69959, 69959), (69968, 70002),
     (70006, 70006), (70019, 70066), (70081, 70084), (70096, 70106), (70108, 70108),
     (70113, 70132), (70144, 70161), (70163, 70187), (70272, 70278), (70280, 70280),
     (70282, 70285), (70287, 70301), (70303, 70312), (70320, 70366), (70384, 70393),
     (70405, 70412), (70415, 70416), (70419, 70440), (70442, 70448), (70450, 70451),
     (70453, 70457), (70461, 70461), (70480, 70480), (70493, 70497), (70656, 70708),
     (70727, 70730), (70736, 70745), (70751, 70753), (70784, 70831), (70852, 70853),
     (70855, 70855), (70864, 70873), (71040, 71086), (71128, 71131), (71168, 71215),
     (71236, 71236), (71248, 71257), (71296, 71338), (71352, 71352), (71360, 71369),
     (71424, 71450), (71472, 71483), (71488, 71494), (71680, 71723), (71840, 71922),
     (71935, 71942), (71945, 71945), (71948, 71955), (71957, 71958), (71960, 71983),
     (71999, 71999), (72001, 72001), (72016, 72025), (72096, 72103), (72106, 72144),
     (72161, 72161), (72163, 72163), (72192, 72192), (72203, 72242), (72250, 72250),
     (72272, 72272), (72284, 72329), (72349, 72349), (72368, 72440), (72704, 72712),
     (72714, 72750), (72768, 72768), (72784, 72812), (72818, 72847), (72960, 72966),
     (72968, 72969), (72971, 73008), (73030, 73030), (73040, 73049), (73056, 73061),
     (73063, 73064), (73066, 73097), (73112, 73112), (73120, 73129), (73440, 73458),
     (73648, 73648), (73664, 73684), (73728, 74649), (74752, 74862), (74880, 75075),
     (77712, 77808), (77824, 78894), (82944, 83526), (92160, 92728), (92736, 92766),
     (92768, 92777), (92784, 92862), (92864, 92873), (92880, 92909), (92928, 92975),
     (92992, 92995), (93008, 93017), (93019, 93025), (93027, 93047), (93053, 93071),
     (93760, 93846), (93952, 94026), (94032, 94032), (94099, 94111), (94176, 94177),
     (94179, 94179), (94208, 100343), (100352, 101589), (101632, 101640), (110576, 110579),
     (110581, 110587), (110589, 110590), (110592, 110882), (110928, 110930),
     (110948, 110951), (110960, 111355), (113664, 113770), (113776, 113788),
     (113792, 113800), (113808, 113817), (119520, 119539), (119648, 119672),
     (119808, 119892), (119894, 119964), (119966, 119967), (119970, 119970),
     (119973, 119974), (119977, 119980), (119982, 119993), (119995, 119995),
     (119997, 120003), (120005, 120069), (120071, 120074), (120077, 120084),
     (120086, 120092), (120094, 120121), (120123, 120126), (120128, 120132),
     (120134, 120134), (120138, 120144), (120146, 120485), (120488, 120512),
     (120514, 120538), (120540, 120570), (120572, 120596), (120598, 120628),
     (120630, 120654), (120656, 120686), (120688, 120712), (120714, 120744),
     (120746, 120770), (120772, 120779), (120782, 120831), (122624, 122654),
     (123136, 123180), (123191, 123197), (123200, 123209), (123214, 123214),
     (123536, 123565), (123584, 123627), (123632, 123641), (124896, 124902),
     (124904, 124907), (124909, 124910), (124912, 124926), (124928, 125124),
     (125127, 125135), (125184, 125251), (125259, 125259), (125264, 125273),
     (126065, 126123), (126125, 126127), (126129, 126132), (126209, 126253),
     (126255, 126269), (126464, 126467), (126469, 126495), (126497, 126498),
     (126500, 126500), (126503, 126503), (126505, 126514), (126516, 126519),
     (126521, 126521), (126523, 126523), (126530, 126530), (126535, 126535),
     (126537, 126537), (126539, 126539), (126541, 126543), (126545, 126546),
     (126548, 126548), (126551, 126551), (126553, 126553), (126555, 126555),
     (126557, 126557), (126559, 126559), (126561, 126562), (126564, 126564),
     (126567, 126570), (126572, 126578), (126580, 126583), (126585, 126588),
     (126590, 126590), (126592, 126601), (126603, 126619), (126625, 126627),
     (126629, 126633), (126635, 126651), (127232, 127244), (130032, 130041),
     (131072, 173791), (173824, 177976), (177984, 178205), (178208, 183969),
     (183984, 191456), (194560, 195101), (196608, 201546)]"

definition is_word :: "uchar \<Rightarrow> bool" where
  "is_word c = in_ranges word_ranges c"

text \<open>
  \<open>str.lower\<close>.  An entry \<open>(lo, hi, step, tgt)\<close> of the table sends every
  \<open>step\<close>-th code point from \<open>lo\<close> to \<open>hi\<close> to the code point as far from \<open>tgt\<close> as it
  is from \<open>lo\<close>; a code point in no entry is its own lower case.  Only 304 has a
  lower case of two code points.
\<close>

definition lower_table :: "(nat \<times> nat \<times> nat \<times> nat) list" where
  "lower_table =
    [(65, 90, 1, 97), (192, 214, 1, 224), (216, 222, 1, 248), (256, 302, 2, 257),
     (306, 310, 2, 307), (313, 327, 2, 314), (330, 374, 2, 331), (376, 376, 1, 255),
     (377, 381, 2, 378), (385, 385, 1, 595), (386, 388, 2, 387), (390, 390, 1, 596),
     (391, 391, 1, 392), (393, 394, 1, 598), (395, 395, 1, 396), (398, 398, 1, 477),
     (399, 399, 1, 601), (400, 400, 1, 603), (401, 401, 1, 402), (403, 403, 1, 608),
     (404, 404, 1, 611), (406, 406, 1, 617), (407, 407, 1, 616), (408, 408, 1, 409),
     (412, 412, 1, 623), (413, 413, 1, 626), (415, 415, 1, 629), (416, 420, 2, 417),
     (422, 422, 1, 640), (423, 423, 1, 424), (425, 425, 1, 643), (428, 428, 1, 429),
     (430, 430, 1, 648), (431, 431, 1, 432), (433, 434, 1, 650), (435, 437, 2, 436),
     (439, 439, 1, 658), (440, 440, 1, 441), (444, 444, 1, 445), (452, 452, 1, 454),
     (453, 453, 1, 454), (455, 455, 1, 457), (456, 456, 1, 457), (458, 458, 1, 460),
     (459, 475, 2, 460), (478, 494, 2, 479), (497, 497, 1, 499), (498, 500, 2, 499),
     (502, 502, 1, 405), (503, 503, 1, 447), (504, 542, 2, 505), (544, 544, 1, 414),
     (546, 562, 2, 547), (570, 570, 1, 11365), (571, 571, 1, 572), (573, 573, 1, 410),
     (574, 574, 1, 11366), (577, 577, 1, 578), (579, 579, 1, 384), (580, 580, 1, 649),
     (581, 581, 1, 652), (582, 590, 2, 583), (880, 882, 2, 881), (886, 886, 1, 887),
     (895, 895, 1, 1011), (902, 902, 1, 940), (904, 906, 1, 941), (908, 908, 1, 972),
     (910, 911, 1, 973), (913, 929, 1, 945), (931, 939, 1, 963), (975, 975, 1, 983),
     (984, 1006, 2, 985), (1012, 1012, 1, 952), (1015, 1015, 1, 1016),
     (1017, 1017, 1, 1010), (1018, 1018, 1, 1019), (1021, 1023, 1, 891),
     (1024, 1039, 1, 1104), (1040, 1071, 1, 1072), (1120, 1152, 2, 1121),
     (1162, 1214, 2, 1163), (1216, 1216, 1, 1231), (1217, 1229, 2, 1218),
     (1232, 1326, 2, 1233), (1329, 1366, 1, 1377), (4256, 4293, 1, 11520),
     (4295, 4295, 1, 11559), (4301, 4301, 1, 11565), (5024, 5103, 1, 43888),
     (5104, 5109, 1, 5112), (7312, 7354, 1, 4304), (7357, 7359, 1, 4349),
     (7680, 7828, 2, 7681), (7838, 7838, 1, 223), (7840, 7934, 2, 7841),
     (7944, 7951, 1, 7936), (7960, 7965, 1, 7952), (7976, 7983, 1, 7968),
     (7992, 7999, 1, 7984), (8008, 8013, 1, 8000), (8025, 8031, 2, 8017),
     (8040, 8047, 1, 8032), (8072, 8079, 1, 8064), (8088, 8095, 1, 8080),
     (8104, 8111, 1, 8096), (8120, 8121, 1, 8112), (8122, 8123, 1, 8048),
     (8124, 8124, 1, 8115), (8136, 8139, 1, 8050), (8140, 8140, 1, 8131),
     (8152, 8153, 1, 8144), (8154, 8155, 1, 8054), (8168, 8169, 1, 8160),
     (8170, 8171, 1, 8058), (8172, 8172, 1, 8165), (8184, 8185, 1, 8056),
     (8186, 8187, 1, 8060), (8188, 8188, 1, 8179), (8486, 8486, 1, 969),
     (8490, 8490, 1, 107), (8491, 8491, 1, 229), (8498, 8498, 1, 8526),
     (8544, 8559, 1, 8560), (8579, 8579, 1, 8580), (9398, 9423, 1, 9424),
     (11264, 11311, 1, 11312), (11360, 11360, 1, 11361), (11362, 11362, 1, 619),
     (11363, 11363, 1, 7549), (11364, 11364, 1, 637), (11367, 11371, 2, 11368),
     (11373, 11373, 1, 593), (11374, 11374, 1, 625), (11375, 11375, 1, 592),
     (11376, 11376, 1, 594), (11378, 11378, 1, 11379), (11381, 11381, 1, 11382),
     (11390, 11391, 1, 575), (11392, 11490, 2, 11393), (11499, 11501, 2, 11500),
     (11506, 11506, 1, 11507), (42560, 42604, 2, 42561), (42624, 42650, 2, 42625),
     (42786, 42798, 2, 42787), (42802, 42862, 2, 42803), (42873, 42875, 2, 42874),
     (42877, 42877, 1, 7545), (42878, 42886, 2, 42879), (42891, 42891, 1, 42892),
     (42893, 42893, 1, 613), (42896, 42898, 2, 42897), (42902, 42920, 2, 42903),
     (42922, 42922, 1, 614), (42923, 42923, 1, 604), (42924, 42924, 1, 609),
     (42925, 42925, 1, 620), (42926, 42926, 1, 618), (42928, 42928, 1, 670),
     (42929, 42929, 1, 647), (42930, 42930, 1, 669), (42931, 42931, 1, 43859),
     (42932, 42946, 2, 42933), (42948, 42948, 1, 42900), (42949, 42949, 1, 642),
     (42950, 42950, 1, 7566), (42951, 42953, 2, 42952), (42960, 42960, 1, 42961),
     (42966, 42968, 2, 42967), (42997, 42997, 1, 42998), (65313, 65338, 1, 65345),
     (66560, 66599, 1, 66600), (66736, 66771, 1, 66776), (66928, 66938, 1, 66967),
     (66940, 66954, 1, 66979), (66956, 66962, 1, 66995), (66964, 66965, 1, 67003),
     (68736, 68786, 1, 68800), (71840, 71871, 1, 71872), (93760, 93791, 1, 93792),
     (125184, 125217, 1, 125218)]"

fun lower_in :: "(nat \<times> nat \<times> nat \<times> nat) list \<Rightarrow> uchar \<Rightarrow> uchar" where
  "lower_in [] c = c"
| "lower_in ((lo, hi, step, tgt) # es) c =
     (if c < lo then c
      else if c \<le> hi \<and> (c - lo) mod step = 0 then tgt + (c - lo)
      else lower_in es c)"

definition lower_ch :: "uchar \<Rightarrow> ustring" where
  "lower_ch c = (if c = 304 then [105, 775] else [lower_in lower_table c])"

text \<open>
  The capital sigma 931 becomes the final sigma 962 when a cased letter comes
  before it and none after it, the case-ignorable characters between being
  skipped, and the small sigma 963 otherwise.  \<open>cased_ranges\<close> are the cased
  characters that are not case-ignorable, the only ones the test can reach.
\<close>

definition case_ignorable_ranges :: "(nat \<times> nat) list" where
  "case_ignorable_ranges =
    [(39, 39), (46, 46), (58, 58), (94, 94), (96, 96), (168, 168), (173, 173), (175, 175),
     (180, 180), (183, 184), (688, 879), (884, 885), (890, 890), (900, 901), (903, 903),
     (1155, 1161), (1369, 1369), (1375, 1375), (1425, 1469), (1471, 1471), (1473, 1474),
     (1476, 1477), (1479, 1479), (1524, 1524), (1536, 1541), (1552, 1562), (1564, 1564),
     (1600, 1600), (1611, 1631), (1648, 1648), (1750, 1757), (1759, 1768), (1770, 1773),
     (1807, 1807), (1809, 1809), (1840, 1866), (1958, 1968), (2027, 2037), (2042, 2042),
     (2045, 2045), (2070, 2093), (2137, 2139), (2184, 2184), (2192, 2193), (2200, 2207),
     (2249, 2306), (2362, 2362), (2364, 2364), (2369, 2376), (2381, 2381), (2385, 2391),
     (2402, 2403), (2417, 2417), (2433, 2433), (2492, 2492), (2497, 2500), (2509, 2509),
     (2530, 2531), (2558, 2558), (2561, 2562), (2620, 2620), (2625, 2626), (2631, 2632),
     (2635, 2637), (2641, 2641), (2672, 2673), (2677, 2677), (2689, 2690), (2748, 2748),
     (2753, 2757), (2759, 2760), (2765, 2765), (2786, 2787), (2810, 2815), (2817, 2817),
     (2876, 2876), (2879, 2879), (2881, 2884), (2893, 2893), (2901, 2902), (2914, 2915),
     (2946, 2946), (3008, 3008), (3021, 3021), (3072, 3072), (3076, 3076), (3132, 3132),
     (3134, 3136), (3142, 3144), (3146, 3149), (3157, 3158), (3170, 3171), (3201, 3201),
     (3260, 3260), (3263, 3263), (3270, 3270), (3276, 3277), (3298, 3299), (3328, 3329),
     (3387, 3388), (3393, 3396), (3405, 3405), (3426, 3427), (3457, 3457), (3530, 3530),
     (3538, 3540), (3542, 3542), (3633, 3633), (3636, 3642), (3654, 3662), (3761, 3761),
     (3764, 3772), (3782, 3782), (3784, 3789), (3864, 3865), (3893, 3893), (3895, 3895),
     (3897, 3897), (3953, 3966), (3968, 3972), (3974, 3975), (3981, 3991), (3993, 4028),
     (4038, 4038), (4141, 4144), (4146, 4151), (4153, 4154), (4157, 4158), (4184, 4185),
     (4190, 4192), (4209, 4212), (4226, 4226), (4229, 4230), (4237, 4237), (4253, 4253),
     (4348, 4348), (4957, 4959), (5906, 5908), (5938, 5939), (5970, 5971), (6002, 6003),
     (6068, 6069), (6071, 6077), (6086, 6086), (6089, 6099), (6103, 6103), (6109, 6109),
     (6155, 6159), (6211, 6211), (6277, 6278), (6313, 6313), (6432, 6434), (6439, 6440),
     (6450, 6450), (6457, 6459), (6679, 6680), (6683, 6683), (6742, 6742), (6744, 6750),
     (6752, 6752), (6754, 6754), (6757, 6764), (6771, 6780), (6783, 6783), (6823, 6823),
     (6832, 6862), (6912, 6915), (6964, 6964), (6966, 6970), (6972, 6972), (6978, 6978),
     (7019, 7027), (7040, 7041), (7074, 7077), (7080, 7081), (7083, 7085), (7142, 7142),
     (7144, 7145), (7149, 7149), (7151, 7153), (7212, 7219), (7222, 7223), (7288, 7293),
     (7376, 7378), (7380, 7392), (7394, 7400), (7405, 7405), (7412, 7412), (7416, 7417),
     (7468, 7530), (7544, 7544), (7579, 7679), (8125, 8125), (8127, 8129), (8141, 8143),
     (8157, 8159), (8173, 8175), (8189, 8190), (8203, 8207), (8216, 8217), (8228, 8228),
     (8231, 8231), (8234, 8238), (8288, 8292), (8294, 8303), (8305, 8305), (8319, 8319),
     (8336, 8348), (8400, 8432), (11388, 11389), (11503, 11505), (11631, 11631),
     (11647, 11647), (11744, 11775), (11823, 11823), (12293, 12293), (12330, 12333),
     (12337, 12341), (12347, 12347), (12441, 12446), (12540, 12542), (40981, 40981),
     (42232, 42237), (42508, 42508), (42607, 42610), (42612, 42621), (42623, 42623),
     (42652, 42655), (42736, 42737), (42752, 42785), (42864, 42864), (42888, 42890),
     (42994, 42996), (43000, 43001), (43010, 43010), (43014, 43014), (43019, 43019),
     (43045, 43046), (43052, 43052), (43204, 43205), (43232, 43249), (43263, 43263),
     (43302, 43309), (43335, 43345), (43392, 43394), (43443, 43443), (43446, 43449),
     (43452, 43453), (43471, 43471), (43493, 43494), (43561, 43566), (43569, 43570),
     (43573, 43574), (43587, 43587), (43596, 43596), (43632, 43632), (43644, 43644),
     (43696, 43696), (43698, 43700), (43703, 43704), (43710, 43711), (43713, 43713),
     (43741, 43741), (43756, 43757), (43763, 43764), (43766, 43766), (43867, 43871),
     (43881, 43883), (44005, 44005), (44008, 44008), (44013, 44013), (64286, 64286),
     (64434, 64450), (65024, 65039), (65043, 65043), (65056, 65071), (65106, 65106),
     (65109, 65109), (65279, 65279), (65287, 65287), (65294, 65294), (65306, 65306),
     (65342, 65342), (65344, 65344), (65392, 65392), (65438, 65439), (65507, 65507),
     (65529, 65531), (66045, 66045), (66272, 66272), (66422, 66426), (67456, 67461),
     (67463, 67504), (67506, 67514), (68097, 68099), (68101, 68102), (68108, 68111),
     (68152, 68154), (68159, 68159), (68325, 68326), (68900, 68903), (69291, 69292),
     (69446, 69456), (69506, 69509), (69633, 69633), (69688, 69702), (69744, 69744),
     (69747, 69748), (69759, 69761), (69811, 69814), (69817, 69818), (69821, 69821),
     (69826, 69826), (69837, 69837), (69888, 69890), (69927, 69931), (69933, 69940),
     (70003, 70003), (70016, 70017), (70070, 70078), (70089, 70092), (70095, 70095),
     (70191, 70193), (70196, 70196), (70198, 70199), (70206, 70206), (70367, 70367),
     (70371, 70378), (70400, 70401), (70459, 70460), (70464, 70464), (70502, 70508),
     (70512, 70516), (70712, 70719), (70722, 70724), (70726, 70726), (70750, 70750),
     (70835, 70840), (70842, 70842), (70847, 70848), (70850, 70851), (71090, 71093),
     (71100, 71101), (71103, 71104), (71132, 71133), (71219, 71226), (71229, 71229),
     (71231, 71232), (71339, 71339), (71341, 71341), (71344, 71349), (71351, 71351),
     (71453, 71455), (71458, 71461), (71463, 71467), (71727, 71735), (71737, 71738),
     (71995, 71996), (71998, 71998), (72003, 72003), (72148, 72151), (72154, 72155),
     (72160, 72160), (72193, 72202), (72243, 72248), (72251, 72254), (72263, 72263),
     (72273, 72278), (72281, 72283), (72330, 72342), (72344, 72345), (72752, 72758),
     (72760, 72765), (72767, 72767), (72850, 72871), (72874, 72880), (72882, 72883),
     (72885, 72886), (73009, 73014), (73018, 73018), (73020, 73021), (73023, 73029),
     (73031, 73031), (73104, 73105), (73109, 73109), (73111, 73111), (73459, 73460),
     (78896, 78904), (92912, 92916), (92976, 92982), (92992, 92995), (94031, 94031),
     (94095, 94111), (94176, 94177), (94179, 94180), (110576, 110579), (110581, 110587),
     (110589, 110590), (113821, 113822), (113824, 113827), (118528, 118573),
     (118576, 118598), (119143, 119145), (119155, 119170), (119173, 119179),
     (119210, 119213), (119362, 119364), (121344, 121398), (121403, 121452),
     (121461, 121461), (121476, 121476), (121499, 121503), (121505, 121519),
     (122880, 122886), (122888, 122904), (122907, 122913), (122915, 122916),
     (122918, 122922), (123184, 123197), (123566, 123566), (123628, 123631),
     (125136, 125142), (125252, 125259), (127995, 127999), (917505, 917505),
     (917536, 917631), (917760, 917999)]"

definition cased_ranges :: "(nat \<times> nat) list" where
  "cased_ranges =
    [(65, 90), (97, 122), (170, 170), (181, 181), (186, 186), (192, 214), (216, 246),
     (248, 442), (444, 447), (452, 659), (661, 687), (880, 883), (886, 887), (891, 893),
     (895, 895), (902, 902), (904, 906), (908, 908), (910, 929), (931, 1013), (1015, 1153),
     (1162, 1327), (1329, 1366), (1376, 1416), (4256, 4293), (4295, 4295), (4301, 4301),
     (4304, 4346), (4349, 4351), (5024, 5109), (5112, 5117), (7296, 7304), (7312, 7354),
     (7357, 7359), (7424, 7467), (7531, 7543), (7545, 7578), (7680, 7957), (7960, 7965),
     (7968, 8005), (8008, 8013), (8016, 8023), (8025, 8025), (8027, 8027), (8029, 8029),
     (8031, 8061), (8064, 8116), (8118, 8124), (8126, 8126), (8130, 8132), (8134, 8140),
     (8144, 8147), (8150, 8155), (8160, 8172), (8178, 8180), (8182, 8188), (8450, 8450),
     (8455, 8455), (8458, 8467), (8469, 8469), (8473, 8477), (8484, 8484), (8486, 8486),
     (8488, 8488), (8490, 8493), (8495, 8500), (8505, 8505), (8508, 8511), (8517, 8521),
     (8526, 8526), (8544, 8575), (8579, 8580), (9398, 9449), (11264, 11387),
     (11390, 11492), (11499, 11502), (11506, 11507), (11520, 11557), (11559, 11559),
     (11565, 11565), (42560, 42605), (42624, 42651), (42786, 42863), (42865, 42887),
     (42891, 42894), (42896, 42954), (42960, 42961), (42963, 42963), (42965, 42969),
     (42997, 42998), (43002, 43002), (43824, 43866), (43872, 43880), (43888, 43967),
     (64256, 64262), (64275, 64279), (65313, 65338), (65345, 65370), (66560, 66639),
     (66736, 66771), (66776, 66811), (66928, 66938), (66940, 66954), (66956, 66962),
     (66964, 66965), (66967, 66977), (66979, 66993), (66995, 67001), (67003, 67004),
     (68736, 68786), (68800, 68850), (71840, 71903), (93760, 93823), (119808, 119892),
     (119894, 119964), (119966, 119967), (119970, 119970), (119973, 119974),
     (119977, 119980), (119982, 119993), (119995, 119995), (119997, 120003),
     (120005, 120069), (120071, 120074), (120077, 120084), (120086, 120092),
     (120094, 120121), (120123, 120126), (120128, 120132), (120134, 120134),
     (120138, 120144), (120146, 120485), (120488, 120512), (120514, 120538),
     (120540, 120570), (120572, 120596), (120598, 120628), (120630, 120654),
     (120656, 120686), (120688, 120712), (120714, 120744), (120746, 120770),
     (120772, 120779), (122624, 122633), (122635, 122654), (125184, 125251),
     (127280, 127305), (127312, 127337), (127344, 127369)]"

definition final_sigma :: "ustring \<Rightarrow> ustring \<Rightarrow> bool" where
  "final_sigma before after =
     ((case dropWhile (in_ranges case_ignorable_ranges) before of
         [] \<Rightarrow> False
       | c # _ \<Rightarrow> in_ranges cased_ranges c)
      \<and> (case dropWhile (in_ranges case_ignorable_ranges) after of
           [] \<Rightarrow> True
         | c # _ \<Rightarrow> \<not> in_ranges cased_ranges c))"

text \<open>\<open>lower_from before s\<close>: the lower case of \<open>s\<close>, which follows the reversed \<open>before\<close>.\<close>

fun lower_from :: "ustring \<Rightarrow> ustring \<Rightarrow> ustring" where
  "lower_from before [] = []"
| "lower_from before (c # cs) =
     (if c = 931 then [if final_sigma before cs then 962 else 963] else lower_ch c)
     @ lower_from (c # before) cs"

definition lower :: "ustring \<Rightarrow> ustring" where
  "lower s = lower_from [] s"

text \<open>
  \<open>re.IGNORECASE\<close>: the code points that a literal character of a pattern
  matches, for the characters below 256 that match more than themselves.
\<close>

definition ignorecase_table :: "(nat \<times> nat list) list" where
  "ignorecase_table =
    [(65, [65, 97]), (66, [66, 98]), (67, [67, 99]), (68, [68, 100]), (69, [69, 101]),
     (70, [70, 102]), (71, [71, 103]), (72, [72, 104]), (73, [73, 105, 304, 305]),
     (74, [74, 106]), (75, [75, 107, 8490]), (76, [76, 108]), (77, [77, 109]),
     (78, [78, 110]), (79, [79, 111]), (80, [80, 112]), (81, [81, 113]), (82, [82, 114]),
     (83, [83, 115, 383]), (84, [84, 116]), (85, [85, 117]), (86, [86, 118]),
     (87, [87, 119]), (88, [88, 120]), (89, [89, 121]), (90, [90, 122]), (97, [65, 97]),
     (98, [66, 98]), (99, [67, 99]), (100, [68, 100]), (101, [69, 101]), (102, [70, 102]),
     (103, [71, 103]), (104, [72, 104]), (105, [73, 105, 304, 305]), (106, [74, 106]),
     (107, [75, 107, 8490]), (108, [76, 108]), (109, [77, 109]), (110, [78, 110]),
     (111, [79, 111]), (112, [80, 112]), (113, [81, 113]), (114, [82, 114]),
     (115, [83, 115, 383]), (116, [84, 116]), (117, [85, 117]), (118, [86, 118]),
     (119, [87, 119]), (120, [88, 120]), (121, [89, 121]), (122, [90, 122]),
     (181, [181, 924, 956]), (192, [192, 224]), (193, [193, 225]), (194, [194, 226]),
     (195, [195, 227]), (196, [196, 228]), (197, [197, 229, 8491]), (198, [198, 230]),
     (199, [199, 231]), (200, [200, 232]), (201, [201, 233]), (202, [202, 234]),
     (203, [203, 235]), (204, [204, 236]), (205, [205, 237]), (206, [206, 238]),
     (207, [207, 239]), (208, [208, 240]), (209, [209, 241]), (210, [210, 242]),
     (211, [211, 243]), (212, [212, 244]), (213, [213, 245]), (214, [214, 246]),
     (216, [216, 248]), (217, [217, 249]), (218, [218, 250]), (219, [219, 251]),
     (220, [220, 252]), (221, [221, 253]), (222, [222, 254]), (223, [223, 7838]),
     (224, [192, 224]), (225, [193, 225]), (226, [194, 226]), (227, [195, 227]),
     (228, [196, 228]), (229, [197, 229, 8491]), (230, [198, 230]), (231, [199, 231]),
     (232, [200, 232]), (233, [201, 233]), (234, [202, 234]), (235, [203, 235]),
     (236, [204, 236]), (237, [205, 237]), (238, [206, 238]), (239, [207, 239]),
     (240, [208, 240]), (241, [209, 241]), (242, [210, 242]), (243, [211, 243]),
     (244, [212, 244]), (245, [213, 245]), (246, [214, 246]), (248, [216, 248]),
     (249, [217, 249]), (250, [218, 250]), (251, [219, 251]), (252, [220, 252]),
     (253, [221, 253]), (254, [222, 254]), (255, [255, 376])]"

definition ignorecase :: "uchar \<Rightarrow> uchar list" where
  "ignorecase c = (case map_of ignorecase_table c of Some vs \<Rightarrow> vs | None \<Rightarrow> [c])"

subsection \<open>Errors and \<open>int\<close>\<close>

datatype error = RuntimeError "ustring list" | ValueError

text \<open>
  \<open>int(ds)\<close> on a non-empty string of decimal digits, of any scripts: the
  conversion raises \<open>ValueError\<close> when the string is longer than
  \<open>sys.get_int_max_str_digits()\<close>, which is 4300 unless the program changes it.
\<close>

definition int_max_str_digits :: nat where
  "int_max_str_digits = 4300"

definition number_value :: "ustring \<Rightarrow> nat" where
  "number_value ds = foldl (\<lambda>n c. 10 * n + digit_val c) 0 ds"

definition int_of :: "ustring \<Rightarrow> error + nat" where
  "int_of ds =
     (if length ds > int_max_str_digits then Inl ValueError else Inr (number_value ds))"

subsection \<open>String methods\<close>

text \<open>\<open>s.strip()\<close> and \<open>s.strip(chars)\<close>.\<close>

definition strip_by :: "(uchar \<Rightarrow> bool) \<Rightarrow> ustring \<Rightarrow> ustring" where
  "strip_by P s = rev (dropWhile P (rev (dropWhile P s)))"

definition strip :: "ustring \<Rightarrow> ustring" where
  "strip s = strip_by is_space s"

definition strip_chars :: "ustring \<Rightarrow> ustring \<Rightarrow> ustring" where
  "strip_chars chars s = strip_by (\<lambda>c. c \<in> set chars) s"

text \<open>\<open>s.split(sep)\<close> for a separator of one character: never an empty list.\<close>

fun split_on :: "uchar \<Rightarrow> ustring \<Rightarrow> ustring list" where
  "split_on sep [] = [[]]"
| "split_on sep (c # cs) =
     (if c = sep then [] # split_on sep cs
      else (case split_on sep cs of
              [] \<Rightarrow> [[c]]
            | w # ws \<Rightarrow> (c # w) # ws))"

text \<open>\<open>s.startswith(p)\<close> and \<open>p in s\<close>.\<close>

fun startswith :: "ustring \<Rightarrow> ustring \<Rightarrow> bool" where
  "startswith s [] = True"
| "startswith [] (p # ps) = False"
| "startswith (c # cs) (p # ps) = (c = p \<and> startswith cs ps)"

fun contains :: "ustring \<Rightarrow> ustring \<Rightarrow> bool" where
  "contains p [] = (p = [])"
| "contains p (c # cs) = (startswith (c # cs) p \<or> contains p cs)"

section \<open>The regular expressions of \<open>re\<close>\<close>

text \<open>
  The patterns of the two scripts are terms of \<open>regex\<close>, run by a backtracking
  matcher that returns every way to match at the cursor, in the order in which
  \<open>re\<close> tries them (greedy repetition first, alternatives left to right).  A cursor
  is the character before the position (for \<open>\b\<close>) and the text that is left.
\<close>

datatype regex =
    Eps
  | Lit uchar
  | Cls "uchar \<Rightarrow> bool"
  | Bound
  | Seq regex regex
  | Alt regex regex
  | Star regex
  | Grp nat regex

type_synonym cursor = "uchar option \<times> ustring"
type_synonym groups = "(nat \<times> ustring) list"

definition word_before :: "uchar option \<Rightarrow> bool" where
  "word_before p = (case p of None \<Rightarrow> False | Some c \<Rightarrow> is_word c)"

definition word_after :: "ustring \<Rightarrow> bool" where
  "word_after s = (case s of [] \<Rightarrow> False | c # _ \<Rightarrow> is_word c)"

definition at_boundary :: "cursor \<Rightarrow> bool" where
  "at_boundary cur = (word_before (fst cur) \<noteq> word_after (snd cur))"

definition step_if :: "(uchar \<Rightarrow> bool) \<Rightarrow> cursor \<Rightarrow> groups \<Rightarrow> (cursor \<times> groups) list" where
  "step_if P cur g =
     (case snd cur of
        [] \<Rightarrow> []
      | c # cs \<Rightarrow> if P c then [((Some c, cs), g)] else [])"

definition shorter :: "cursor \<Rightarrow> cursor \<times> groups \<Rightarrow> bool" where
  "shorter cur r = (length (snd (fst r)) < length (snd cur))"

definition capture :: "nat \<Rightarrow> cursor \<Rightarrow> cursor \<times> groups \<Rightarrow> cursor \<times> groups" where
  "capture n cur r =
     (fst r, (n, take (length (snd cur) - length (snd (fst r))) (snd cur)) # snd r)"

text \<open>
  An iteration of a star that consumes nothing ends the repetition, as in \<open>re\<close>;
  no repeated pattern of the scripts can match the empty string.
\<close>

function matches :: "regex \<Rightarrow> cursor \<Rightarrow> groups \<Rightarrow> (cursor \<times> groups) list" where
  "matches Eps cur g = [(cur, g)]"
| "matches (Lit c) cur g = step_if (\<lambda>x. x = c) cur g"
| "matches (Cls P) cur g = step_if P cur g"
| "matches Bound cur g = (if at_boundary cur then [(cur, g)] else [])"
| "matches (Seq a b) cur g =
     concat (map (\<lambda>r. matches b (fst r) (snd r)) (matches a cur g))"
| "matches (Alt a b) cur g = matches a cur g @ matches b cur g"
| "matches (Star a) cur g =
     concat (map (\<lambda>r. matches (Star a) (fst r) (snd r))
                 (filter (shorter cur) (matches a cur g)))
     @ [(cur, g)]"
| "matches (Grp n a) cur g = map (capture n cur) (matches a cur g)"
  by pat_completeness auto
termination
  by (relation "inv_image (less_than <*lex*> less_than)
                   (\<lambda>(r, cur, g). (size r, length (snd cur)))")
     (auto simp: shorter_def)

declare matches.simps(7) [simp del]

lemma matches_Star:
  "matches (Star a) (p, s) g =
     concat (map (\<lambda>r. matches (Star a) (fst r) (snd r))
                 (filter (shorter (p, s)) (matches a (p, s) g)))
     @ [((p, s), g)]"
  by (rule matches.simps(7))

lemma step_if_Nil [simp]: "step_if P (p, []) g = []"
  by (simp add: step_if_def)

lemma step_if_Cons [simp]:
  "step_if P (p, c # cs) g = (if P c then [((Some c, cs), g)] else [])"
  by (simp add: step_if_def)

text \<open>The derived forms \<open>a+\<close>, \<open>a?\<close>, \<open>a{2,}\<close> and a literal word.\<close>

definition Plus :: "regex \<Rightarrow> regex" where
  "Plus a = Seq a (Star a)"

definition Opt :: "regex \<Rightarrow> regex" where
  "Opt a = Alt a Eps"

definition AtLeast2 :: "regex \<Rightarrow> regex" where
  "AtLeast2 a = Seq a (Seq a (Star a))"

fun seqs :: "regex list \<Rightarrow> regex" where
  "seqs [] = Eps"
| "seqs [a] = a"
| "seqs (a # b # bs) = Seq a (seqs (b # bs))"

fun alts :: "regex list \<Rightarrow> regex" where
  "alts [] = Eps"
| "alts [a] = a"
| "alts (a # b # bs) = Alt a (alts (b # bs))"

definition word :: "string \<Rightarrow> regex" where
  "word cs = seqs (map Lit (ustr cs))"

text \<open>With \<open>re.IGNORECASE\<close> a literal character matches all its case variants.\<close>

definition word_i :: "string \<Rightarrow> regex" where
  "word_i cs = seqs (map (\<lambda>c. Cls (\<lambda>x. x \<in> set (ignorecase c))) (ustr cs))"

text \<open>
  A match object: \<open>pre\<close> is \<open>s[:m.start()]\<close>, \<open>whole\<close> is \<open>m.group(0)\<close>, \<open>post\<close> the
  cursor at \<open>m.end()\<close>, and \<open>group m k\<close> is \<open>m.group(k)\<close>, \<open>None\<close> for a group that took
  no part in the match.
\<close>

record rmatch =
  pre :: ustring
  whole :: ustring
  post :: cursor
  grps :: groups

definition group :: "rmatch \<Rightarrow> nat \<Rightarrow> ustring option" where
  "group m k = map_of (grps m) k"

text \<open>
  \<open>m.group(k)\<close> for a group that every match of the pattern goes through (the
  empty string stands for \<open>None\<close>, as in the tuples of \<open>re.findall\<close>).
\<close>

definition group_text :: "rmatch \<Rightarrow> nat \<Rightarrow> ustring" where
  "group_text m k = (case group m k of Some t \<Rightarrow> t | None \<Rightarrow> [])"

definition mk_match :: "cursor \<Rightarrow> cursor \<times> groups \<Rightarrow> rmatch" where
  "mk_match cur r =
     \<lparr>pre = [], whole = take (length (snd cur) - length (snd (fst r))) (snd cur),
      post = fst r, grps = snd r\<rparr>"

fun search_from :: "regex \<Rightarrow> uchar option \<Rightarrow> ustring \<Rightarrow> rmatch option" where
  "search_from r p s =
     (case matches r (p, s) [] of
        x # _ \<Rightarrow> Some (mk_match (p, s) x)
      | [] \<Rightarrow>
          (case s of
             [] \<Rightarrow> None
           | c # cs \<Rightarrow> map_option (\<lambda>m. m\<lparr>pre := c # pre m\<rparr>) (search_from r (Some c) cs)))"

declare search_from.simps [simp del]

definition search :: "regex \<Rightarrow> ustring \<Rightarrow> rmatch option" where
  "search r s = search_from r None s"

definition fullmatch :: "regex \<Rightarrow> ustring \<Rightarrow> rmatch option" where
  "fullmatch r s =
     map_option (mk_match (None, s)) (find (\<lambda>x. snd (fst x) = []) (matches r (None, s) []))"

text \<open>A pattern that cannot match the empty string moves the cursor.\<close>

fun nullable :: "regex \<Rightarrow> bool" where
  "nullable Eps = True"
| "nullable (Lit c) = False"
| "nullable (Cls P) = False"
| "nullable Bound = True"
| "nullable (Seq a b) = (nullable a \<and> nullable b)"
| "nullable (Alt a b) = (nullable a \<or> nullable b)"
| "nullable (Star a) = True"
| "nullable (Grp n a) = nullable a"

lemma matches_length:
  "x \<in> set (matches r cur g) \<Longrightarrow> length (snd (fst x)) \<le> length (snd cur)"
proof (induction r cur g arbitrary: x rule: matches.induct)
  case (5 a b cur g)
  then obtain y where y: "y \<in> set (matches a cur g)" "x \<in> set (matches b (fst y) (snd y))"
    by auto
  from "5.IH"(1)[OF y(1)] "5.IH"(2)[OF y(1) y(2)] show ?case by simp
next
  case (7 a cur g)
  show ?case
  proof (cases "x = (cur, g)")
    case True
    then show ?thesis by simp
  next
    case False
    with "7.prems" obtain y where y: "y \<in> set (filter (shorter cur) (matches a cur g))"
      "x \<in> set (matches (Star a) (fst y) (snd y))"
      by (auto simp: matches.simps(7)[of a cur g])
    from "7.IH"(2)[OF y] y(1) show ?thesis by (simp add: shorter_def)
  qed
qed (auto simp: step_if_def capture_def split: list.splits if_splits)

lemma matches_progress:
  "\<not> nullable r \<Longrightarrow> x \<in> set (matches r cur g) \<Longrightarrow> length (snd (fst x)) < length (snd cur)"
proof (induction r arbitrary: x cur g)
  case (Seq a b)
  from Seq.prems(2) obtain y where y: "y \<in> set (matches a cur g)"
    "x \<in> set (matches b (fst y) (snd y))"
    by auto
  have la: "length (snd (fst y)) \<le> length (snd cur)" using matches_length[OF y(1)] .
  have lb: "length (snd (fst x)) \<le> length (snd (fst y))" using matches_length[OF y(2)] .
  show ?case
  proof (cases "nullable a")
    case False
    from Seq.IH(1)[OF False y(1)] lb show ?thesis by simp
  next
    case True
    with Seq.prems(1) have "\<not> nullable b" by simp
    from Seq.IH(2)[OF this y(2)] la show ?thesis by simp
  qed
qed (auto simp: step_if_def capture_def split: list.splits if_splits)

lemma search_here_length:
  "matches r (p, s) [] = x # xs \<Longrightarrow> m = mk_match (p, s) x \<Longrightarrow>
     length (pre m) + length (whole m) + length (snd (post m)) = length s"
proof -
  assume a: "matches r (p, s) [] = x # xs" and m: "m = mk_match (p, s) x"
  from a have "x \<in> set (matches r (p, s) [])" by simp
  from matches_length[OF this] m show ?thesis by (simp add: mk_match_def)
qed

lemma search_from_length:
  "search_from r p s = Some m \<Longrightarrow>
     length (pre m) + length (whole m) + length (snd (post m)) = length s"
proof (induction s arbitrary: p m)
  case Nil
  show ?case
  proof (cases "matches r (p, []) []")
    case Nil
    with Nil.prems show ?thesis by (simp add: search_from.simps[of r p "[]"])
  next
    case (Cons x xs)
    with Nil.prems have "m = mk_match (p, []) x"
      by (simp add: search_from.simps[of r p "[]"])
    from search_here_length[OF Cons this] show ?thesis .
  qed
next
  case (Cons c cs)
  show ?case
  proof (cases "matches r (p, c # cs) []")
    case Nil
    with Cons.prems obtain m' where m': "search_from r (Some c) cs = Some m'"
      "m = m'\<lparr>pre := c # pre m'\<rparr>"
      by (auto simp: search_from.simps[of r p "c # cs"])
    from Cons.IH[OF m'(1)] m'(2) show ?thesis by simp
  next
    case (Cons x xs)
    with Cons.prems have "m = mk_match (p, c # cs) x"
      by (simp add: search_from.simps[of r p "c # cs"])
    from search_here_length[OF Cons this] show ?thesis .
  qed
qed

lemma search_from_progress:
  "\<not> nullable r \<Longrightarrow> search_from r p s = Some m \<Longrightarrow> length (snd (post m)) < length s"
proof (induction s arbitrary: p m)
  case Nil
  show ?case
  proof (cases "matches r (p, []) []")
    case Nil
    with Nil.prems show ?thesis by (simp add: search_from.simps[of r p "[]"])
  next
    case (Cons x xs)
    then have "x \<in> set (matches r (p, []) [])" by simp
    from matches_progress[OF Nil.prems(1) this] show ?thesis by simp
  qed
next
  case (Cons c cs)
  show ?case
  proof (cases "matches r (p, c # cs) []")
    case Nil
    with Cons.prems obtain m' where m': "search_from r (Some c) cs = Some m'"
      "m = m'\<lparr>pre := c # pre m'\<rparr>"
      by (auto simp: search_from.simps[of r p "c # cs"])
    from Cons.IH[OF Cons.prems(1) m'(1)] m'(2) show ?thesis by simp
  next
    case (Cons x xs)
    then have x: "x \<in> set (matches r (p, c # cs) [])" by simp
    from Cons Cons.prems have "m = mk_match (p, c # cs) x"
      by (simp add: search_from.simps[of r p "c # cs"])
    with matches_progress[OF Cons.prems(1) x] show ?thesis by (simp add: mk_match_def)
  qed
qed

lemma length_strip_by: "length (strip_by P s) \<le> length s"
proof -
  have "length (dropWhile P (rev (dropWhile P s))) \<le> length (rev (dropWhile P s))"
    by (rule length_dropWhile_le)
  also have "\<dots> \<le> length s" by (simp add: length_dropWhile_le)
  finally show ?thesis by (simp add: strip_by_def)
qed

text \<open>
  \<open>re.finditer\<close>: the matches from left to right, each search starting where the
  match before it ended.  The patterns that the scripts give to \<open>findall\<close> and
  \<open>sub\<close> cannot match the empty string; after an empty match the scan moves on by
  one character.
\<close>

function finditer :: "regex \<Rightarrow> uchar option \<Rightarrow> ustring \<Rightarrow> rmatch list" where
  "finditer r p s =
     (case search_from r p s of
        None \<Rightarrow> []
      | Some m \<Rightarrow>
          m # (if whole m = []
               then (case snd (post m) of
                       [] \<Rightarrow> []
                     | c # cs \<Rightarrow> finditer r (Some c) cs)
               else finditer r (fst (post m)) (snd (post m))))"
  by pat_completeness auto
termination
proof (relation "measure (\<lambda>(r, p, s). length s)", goal_cases)
  case 1
  show ?case by simp
next
  case (2 r p s m c cs)
  from search_from_length[OF 2(1)] 2(3) show ?case by simp
next
  case (3 r p s m)
  from 3(2) have "length (whole m) \<noteq> 0" by simp
  with search_from_length[OF 3(1)] have "length (snd (post m)) < length s" by arith
  then show ?case by (simp add: case_prod_beta)
qed

declare finditer.simps [simp del]

text \<open>\<open>re.sub(pattern, repl, s)\<close> for a replacement text with no group reference.\<close>

function re_sub :: "regex \<Rightarrow> ustring \<Rightarrow> uchar option \<Rightarrow> ustring \<Rightarrow> ustring" where
  "re_sub r rep p s =
     (case search_from r p s of
        None \<Rightarrow> s
      | Some m \<Rightarrow>
          pre m @ rep @
          (if whole m = []
           then (case snd (post m) of
                   [] \<Rightarrow> []
                 | c # cs \<Rightarrow> c # re_sub r rep (Some c) cs)
           else re_sub r rep (fst (post m)) (snd (post m))))"
  by pat_completeness auto
termination
proof (relation "measure (\<lambda>(r, rep, p, s). length s)", goal_cases)
  case 1
  show ?case by simp
next
  case (2 r rep p s m c cs)
  from search_from_length[OF 2(1)] 2(3) show ?case by simp
next
  case (3 r rep p s m)
  from 3(2) have "length (whole m) \<noteq> 0" by simp
  with search_from_length[OF 3(1)] have "length (snd (post m)) < length s" by arith
  then show ?case by (simp add: case_prod_beta)
qed

declare re_sub.simps [simp del]

text \<open>\<open>s.replace(old, new)\<close> for a non-empty \<open>old\<close>.\<close>

function replace :: "ustring \<Rightarrow> ustring \<Rightarrow> ustring \<Rightarrow> ustring" where
  "replace old new [] = []"
| "replace old new (c # cs) =
     (if old \<noteq> [] \<and> startswith (c # cs) old
      then new @ replace old new (drop (length old) (c # cs))
      else c # replace old new cs)"
  by pat_completeness auto
termination
  by (relation "measure (\<lambda>(old, new, s). length s)") (auto simp: neq_Nil_conv)

text \<open>\<open>s.split()\<close>: the maximal runs of characters that are not white space.\<close>

fun split_ws :: "ustring \<Rightarrow> ustring list" where
  "split_ws [] = []"
| "split_ws (c # cs) =
     (if is_space c then split_ws cs
      else (case cs of
              [] \<Rightarrow> [[c]]
            | d # _ \<Rightarrow>
                if is_space d then [c] # split_ws cs
                else (case split_ws cs of
                        [] \<Rightarrow> [[c]]
                      | w # ws \<Rightarrow> (c # w) # ws)))"

text \<open>\<open>sep.join(parts)\<close>.\<close>

fun join :: "ustring \<Rightarrow> ustring list \<Rightarrow> ustring" where
  "join sep [] = []"
| "join sep [w] = w"
| "join sep (w # v # ws) = w @ sep @ join sep (v # ws)"

text \<open>The character classes and the dotted numbers that the patterns share.\<close>

abbreviation D :: regex where "D \<equiv> Cls is_digit"
abbreviation S :: regex where "S \<equiv> Cls is_space"
abbreviation W :: regex where "W \<equiv> Cls is_word"
abbreviation Dot :: regex where "Dot \<equiv> Lit 46"

section \<open>Tables\<close>

text \<open>
  What the scripts read of a \<open>table\<close> tag through BeautifulSoup: \<open>ths\<close> is
  \<open>get_text(" ", strip=True)\<close> of every \<open>th\<close> found in the table, in document
  order, and \<open>trs\<close> gives, for every \<open>tr\<close>, that text of each of its \<open>td\<close> and \<open>th\<close>
  cells.
\<close>

record table =
  ths :: "ustring list"
  trs :: "ustring list list"

text \<open>\<open>enumerate(xs)\<close>.\<close>

definition enumerate0 :: "'a list \<Rightarrow> (nat \<times> 'a) list" where
  "enumerate0 xs = zip [0..<length xs] xs"

section \<open>The macOS table\<close>

subsection \<open>The inclusion filter\<close>

text \<open>The pattern \<open>(\d+)(?:\.(\d+))?\<close>.\<close>

definition os_pat :: regex where
  "os_pat = Seq (Grp 1 (Plus (Cls is_digit)))
                (Opt (Seq (Lit 46) (Grp 2 (Plus (Cls is_digit)))))"

text \<open>
  \<open>should_include_os\<close>: the two calls of \<open>int\<close> can raise, the first before the
  second; \<open>m.group(2)\<close> is false when it is \<open>None\<close> or empty.
\<close>

definition should_include_os :: "ustring \<Rightarrow> error + bool" where
  "should_include_os os_str =
     (case search os_pat os_str of
        None \<Rightarrow> Inr False
      | Some m \<Rightarrow>
          (case int_of (group_text m 1) of
             Inl e \<Rightarrow> Inl e
           | Inr major \<Rightarrow>
               (case (case group m 2 of
                        None \<Rightarrow> Inr 0
                      | Some g2 \<Rightarrow> if g2 \<noteq> [] then int_of g2 else Inr 0) of
                  Inl e \<Rightarrow> Inl e
                | Inr minor \<Rightarrow> Inr (major \<ge> 11 \<or> (major = 10 \<and> minor \<ge> 8)))))"


subsection \<open>The row extractor\<close>

record raw_row =
  os :: ustring
  supported_systems :: "ustring list"

text \<open>The loop over \<open>enumerate(headers)\<close>: the state is \<open>(idx_os, idx_sup)\<close>.\<close>

definition mac_header_step :: "nat option \<times> nat option \<Rightarrow> nat \<times> ustring \<Rightarrow> nat option \<times> nat option" where
  "mac_header_step st ih =
     (let hl = lower (snd ih);
          idx_os = (if startswith hl (ustr ''operating system'') then Some (fst ih) else fst st);
          idx_sup = (if startswith hl (ustr ''supported systems'') then Some (fst ih) else snd st)
      in (idx_os, idx_sup))"

definition mac_header_indices :: "ustring list \<Rightarrow> nat option \<times> nat option" where
  "mac_header_indices headers = foldl mac_header_step (None, None) (enumerate0 headers)"

definition mac_row :: "nat \<Rightarrow> nat \<Rightarrow> ustring list \<Rightarrow> raw_row list" where
  "mac_row idx_os idx_sup cells =
     (if length cells \<le> max idx_os idx_sup then []
      else
        (let os_text = join (ustr '' '') (split_ws (cells ! idx_os));
             sup_text = cells ! idx_sup;
             raw_items = map (\<lambda>p. strip_chars (ustr '','') (strip p))
                             (filter (\<lambda>p. strip p \<noteq> []) (split_on 44 sup_text))
         in [\<lparr>os = os_text, supported_systems = raw_items\<rparr>]))"

definition mac_parse_table :: "table \<Rightarrow> error + raw_row list" where
  "mac_parse_table t =
     (let headers = ths t in
      case mac_header_indices headers of
        (Some idx_os, Some idx_sup) \<Rightarrow> Inr (concat (map (mac_row idx_os idx_sup) (drop 1 (trs t))))
      | _ \<Rightarrow> Inl (RuntimeError headers))"

subsection \<open>The supported-systems splitter\<close>

text \<open>\<open>LABEL_PAT\<close>: \<open>\b(Laptops?|Desktops?)\s*:\s*\<close> with \<open>re.IGNORECASE\<close>.\<close>

definition LABEL_PAT :: regex where
  "LABEL_PAT =
     seqs [Bound,
           Grp 1 (Alt (Seq (word_i ''Laptop'') (Opt (word_i ''s'')))
                      (Seq (word_i ''Desktop'') (Opt (word_i ''s'')))),
           Star S, Lit 58, Star S]"

lemma LABEL_PAT_not_nullable: "\<not> nullable LABEL_PAT"
  by (simp add: LABEL_PAT_def)

text \<open>The \<open>while True\<close> loop of \<open>split_category_labels\<close>, from the current \<open>s\<close>.\<close>

function label_loop :: "ustring \<Rightarrow> ustring list" where
  "label_loop s =
     (case search LABEL_PAT s of
        None \<Rightarrow> (if s \<noteq> [] then [strip_chars (ustr '' ,'') s] else [])
      | Some m \<Rightarrow>
          (let left = strip_chars (ustr '' ,'') (pre m) in
           (if left \<noteq> [] then [left] else []) @ label_loop (strip (snd (post m)))))"
  by pat_completeness auto
termination
proof (relation "measure length", goal_cases)
  case 1
  show ?case by simp
next
  case (2 s m)
  from 2(1) have "length (snd (post m)) < length s"
    unfolding search_def by (rule search_from_progress[OF LABEL_PAT_not_nullable])
  moreover have "length (strip (snd (post m))) \<le> length (snd (post m))"
    unfolding strip_def by (rule length_strip_by)
  ultimately show ?case by simp
qed

declare label_loop.simps [simp del]

definition split_category_labels :: "ustring \<Rightarrow> ustring list" where
  "split_category_labels text = label_loop (strip text)"

text \<open>The body of the innermost loop of \<open>clean_supported_systems\<close>, for one \<open>sub\<close>.\<close>

definition clean_sub :: "ustring \<Rightarrow> ustring list" where
  "clean_sub sub =
     (if lower sub = ustr ''and'' then []
      else
        (let sub' = strip_chars (ustr '' ,'') (re_sub (AtLeast2 S) (ustr '' '') None sub)
         in if sub' \<noteq> [] then [sub'] else []))"

definition collect_systems :: "ustring list \<Rightarrow> ustring list" where
  "collect_systems raw_items =
     concat (map (\<lambda>item.
       concat (map (\<lambda>ch.
         concat (map clean_sub
           (map strip (filter (\<lambda>c. strip c \<noteq> []) (split_on 44 ch)))))
         (split_category_labels item)))
       raw_items)"

text \<open>The de-duplication loop: the state is \<open>(seen, uniq)\<close>.\<close>

definition dedup_step :: "ustring set \<times> ustring list \<Rightarrow> ustring \<Rightarrow> ustring set \<times> ustring list" where
  "dedup_step st s = (if s \<notin> fst st then (insert s (fst st), snd st @ [s]) else st)"

definition clean_supported_systems :: "ustring list \<Rightarrow> ustring list" where
  "clean_supported_systems raw_items = snd (foldl dedup_step ({}, []) (collect_systems raw_items))"

subsection \<open>The version normalizer\<close>

text \<open>\<open>\d+(?:\.\d+)*\<close>, and the class of the en dash, the em dash and the hyphen.\<close>

definition version :: regex where
  "version = Seq (Plus D) (Star (Seq Dot (Plus D)))"

definition is_dash :: "uchar \<Rightarrow> bool" where
  "is_dash c = (c = 8211 \<or> c = 8212 \<or> c = 45)"

definition range_body :: regex where
  "range_body = seqs [version, Star S, Cls is_dash, Star S, version]"

text \<open>The three patterns of \<open>normalize_os\<close>, in the order in which it tries them.\<close>

definition os_full_pat :: regex where
  "os_full_pat = Seq version (Opt (seqs [Star S, Cls is_dash, Star S, version]))"

definition os_range_pat :: regex where
  "os_range_pat = seqs [Bound, Grp 1 range_body, Bound]"

definition os_single_pat :: regex where
  "os_single_pat = seqs [Bound, Grp 1 version, Bound]"

definition normalize_os :: "ustring \<Rightarrow> ustring" where
  "normalize_os os_text =
     (let s = strip os_text in
      if fullmatch os_full_pat s \<noteq> None then s
      else
        (case search os_range_pat s of
           Some m \<Rightarrow> group_text m 1
         | None \<Rightarrow>
             (case search os_single_pat s of
                Some m \<Rightarrow> group_text m 1
              | None \<Rightarrow> s)))"

section \<open>The Xcode releases table\<close>

subsection \<open>Cleaning and the macOS requirement\<close>

definition clean_version_text :: "ustring \<Rightarrow> ustring" where
  "clean_version_text text0 =
     (let text1 = replace (ustr ''&nbsp'') (ustr '' '') (replace (ustr ''&nbsp;'') (ustr '' '') text0);
          text2 = replace [160] (ustr '' '') (replace [160] (ustr '' '') text1);
          text3 = replace [8212] (ustr ''-'')
                    (replace [8211] (ustr ''-'')
                       (replace [8212] (ustr ''-'') (replace [8211] (ustr ''-'') text2)));
          text4 = re_sub (Plus S) (ustr '' '') None text3
      in strip text4)"

text \<open>\<open>\d+\.(?:\d+|x)(?:\.\d+)?\<close> and \<open>\d+\.\d+(?:\.\d+)?\<close>.\<close>

definition ver_x :: regex where
  "ver_x = seqs [Plus D, Dot, Alt (Plus D) (Lit 120), Opt (Seq Dot (Plus D))]"

definition ver_dotted :: regex where
  "ver_dotted = seqs [Plus D, Dot, Plus D, Opt (Seq Dot (Plus D))]"

text \<open>The range pattern, whose dash class is the hyphen and the en dash.\<close>

definition macos_range_pat :: regex where
  "macos_range_pat =
     seqs [Grp 1 ver_x, Star S, Cls (\<lambda>c. c = 45 \<or> c = 8211), Star S,
           Opt (seqs [word ''macOS'', Plus S, Plus W, Plus S]),
           Grp 2 ver_x]"

definition dotted_pat :: regex where
  "dotted_pat = seqs [Bound, Grp 1 ver_dotted, Bound]"

definition ver_x_pat :: regex where
  "ver_x_pat = seqs [Bound, Grp 1 ver_x, Bound]"

text \<open>\<open>re.findall\<close> of a pattern with one group: the texts of that group.\<close>

definition findall1 :: "regex \<Rightarrow> ustring \<Rightarrow> ustring list" where
  "findall1 r s = map (\<lambda>m. group_text m 1) (finditer r None s)"

definition parse_macos_versions :: "ustring \<Rightarrow> ustring" where
  "parse_macos_versions text0 =
     (let text = clean_version_text text0 in
      case search macos_range_pat text of
        Some range_match \<Rightarrow> group_text range_match 1 @ ustr '' - '' @ group_text range_match 2
      | None \<Rightarrow>
          (case (if contains (ustr ''or later'') (lower text)
                 then findall1 dotted_pat text else []) of
             v # _ \<Rightarrow> v @ ustr ''+''
           | [] \<Rightarrow>
               (case search ver_x_pat text of
                  Some version_match \<Rightarrow> group_text version_match 1
                | None \<Rightarrow>
                    (case findall1 dotted_pat text of
                       v # _ \<Rightarrow> v
                     | [] \<Rightarrow> []))))"

subsection \<open>The SDK column\<close>

text \<open>
  \<open>(iOS|iPadOS|macOS|tvOS|watchOS|visionOS|DriverKit)\s+(\d+(?:\.\d+)?(?:\.\d+)?)\<close>
  with \<open>re.IGNORECASE\<close>.
\<close>

definition platform_names :: "string list" where
  "platform_names = [''iOS'', ''iPadOS'', ''macOS'', ''tvOS'', ''watchOS'', ''visionOS'', ''DriverKit'']"

definition ver3 :: regex where
  "ver3 = seqs [Plus D, Opt (Seq Dot (Plus D)), Opt (Seq Dot (Plus D))]"

definition sdk_pat :: regex where
  "sdk_pat = seqs [Grp 1 (alts (map word_i platform_names)), Plus S, Grp 2 ver3]"

text \<open>
  A \<open>dict\<close> keeps its keys in the order of their first insertion; storing under a
  key that is there replaces the value in place.
\<close>

fun dict_set :: "('k \<times> 'v) list \<Rightarrow> 'k \<Rightarrow> 'v \<Rightarrow> ('k \<times> 'v) list" where
  "dict_set [] k v = [(k, v)]"
| "dict_set ((k', v') # kvs) k v =
     (if k' = k then (k, v) # kvs else (k', v') # dict_set kvs k v)"

definition sdk_step :: "(ustring \<times> ustring) list \<Rightarrow> rmatch \<Rightarrow> (ustring \<times> ustring) list" where
  "sdk_step sdks m =
     (let platform = group_text m 1;
          version = group_text m 2;
          platform_key = strip platform
      in dict_set sdks platform_key version)"

definition parse_sdk_column :: "ustring \<Rightarrow> (ustring \<times> ustring) list" where
  "parse_sdk_column text0 =
     (let text = clean_version_text text0 in
      foldl sdk_step [] (finditer sdk_pat None text))"

subsection \<open>The row extractor\<close>

record release =
  xcode_version :: ustring
  macos_version :: ustring
  sdks :: "(ustring \<times> ustring) list"

text \<open>The loop over \<open>enumerate(headers)\<close>: the state is \<open>(idx_xcode, idx_macos, idx_sdk)\<close>.\<close>

definition xcode_header_step ::
  "nat option \<times> nat option \<times> nat option \<Rightarrow> nat \<times> ustring \<Rightarrow> nat option \<times> nat option \<times> nat option" where
  "xcode_header_step st ih =
     (case st of (idx_xcode, idx_macos, idx_sdk) \<Rightarrow>
        (let i = fst ih; h = snd ih in
         if contains (ustr ''xcode'') h then (Some i, idx_macos, idx_sdk)
         else if contains (ustr ''macos'') h \<or> contains (ustr ''minimum'') h \<or> contains (ustr ''os'') h
              then (idx_xcode, Some i, idx_sdk)
         else if contains (ustr ''sdk'') h then (idx_xcode, idx_macos, Some i)
         else (idx_xcode, idx_macos, idx_sdk)))"

definition xcode_header_indices :: "ustring list \<Rightarrow> nat option \<times> nat option \<times> nat option" where
  "xcode_header_indices headers = foldl xcode_header_step (None, None, None) (enumerate0 headers)"

text \<open>\<open>\b(\d+(?:\.\d+)?(?:\.\d+)?)\b\<close>.\<close>

definition xcode_pat :: regex where
  "xcode_pat = seqs [Bound, Grp 1 ver3, Bound]"

text \<open>\<open>max(filter(lambda x: x is not None, [idx_xcode, idx_macos, idx_sdk]))\<close>.\<close>

definition max_index :: "nat \<Rightarrow> nat option \<Rightarrow> nat option \<Rightarrow> nat" where
  "max_index idx_xcode idx_macos idx_sdk =
     Max (set (idx_xcode # (case idx_macos of None \<Rightarrow> [] | Some i \<Rightarrow> [i])
                         @ (case idx_sdk of None \<Rightarrow> [] | Some i \<Rightarrow> [i])))"

text \<open>The body of the loop over the rows: the records that one row appends.\<close>

definition xcode_row :: "nat \<Rightarrow> nat option \<Rightarrow> nat option \<Rightarrow> ustring list \<Rightarrow> release list" where
  "xcode_row idx_xcode idx_macos idx_sdk cells =
     (if length cells \<le> max_index idx_xcode idx_macos idx_sdk then []
      else
        (let xcode_text = clean_version_text (cells ! idx_xcode) in
         case search xcode_pat xcode_text of
           None \<Rightarrow> []
         | Some xcode_match \<Rightarrow>
             (let macos_version =
                    (case idx_macos of
                       None \<Rightarrow> []
                     | Some i \<Rightarrow> if i < length cells then parse_macos_versions (cells ! i) else []);
                  sdks =
                    (case idx_sdk of
                       None \<Rightarrow> []
                     | Some i \<Rightarrow> if i < length cells then parse_sdk_column (cells ! i) else [])
              in [\<lparr>xcode_version = group_text xcode_match 1,
                   macos_version = macos_version, sdks = sdks\<rparr>])))"

definition xcode_parse_table :: "table \<Rightarrow> error + release list" where
  "xcode_parse_table t =
     (let headers = map lower (ths t) in
      case xcode_header_indices headers of
        (None, _, _) \<Rightarrow> Inl (RuntimeError headers)
      | (Some idx_xcode, idx_macos, idx_sdk) \<Rightarrow>
          Inr (concat (map (xcode_row idx_xcode idx_macos idx_sdk) (drop 1 (trs t)))))"

section \<open>What the matcher finds\<close>

text \<open>
  The words of a pattern, without the captures and the order of the attempts.
  Every result of the matcher consumes a word of the pattern (soundness), and for a
  pattern with no \<open>\b\<close> every word of the pattern at the cursor is among its results
  (completeness).
\<close>

inductive_set star :: "ustring set \<Rightarrow> ustring set" for A :: "ustring set" where
  star_nil: "[] \<in> star A"
| star_app: "u \<in> A \<Longrightarrow> v \<in> star A \<Longrightarrow> u @ v \<in> star A"

fun lang :: "regex \<Rightarrow> ustring set" where
  "lang Eps = {[]}"
| "lang (Lit c) = {[c]}"
| "lang (Cls P) = {[c] | c. P c}"
| "lang Bound = {[]}"
| "lang (Seq a b) = {u @ v | u v. u \<in> lang a \<and> v \<in> lang b}"
| "lang (Alt a b) = lang a \<union> lang b"
| "lang (Star a) = star (lang a)"
| "lang (Grp n a) = lang a"

fun bound_free :: "regex \<Rightarrow> bool" where
  "bound_free Bound = False"
| "bound_free (Seq a b) = (bound_free a \<and> bound_free b)"
| "bound_free (Alt a b) = (bound_free a \<and> bound_free b)"
| "bound_free (Star a) = bound_free a"
| "bound_free (Grp n a) = bound_free a"
| "bound_free r = True"

definition adv :: "uchar option \<Rightarrow> ustring \<Rightarrow> uchar option" where
  "adv p w = (if w = [] then p else Some (last w))"

lemma adv_Nil [simp]: "adv p [] = p"
  by (simp add: adv_def)

lemma adv_append [simp]: "adv (adv p u) v = adv p (u @ v)"
  by (simp add: adv_def)

lemma step_if_sound:
  "x \<in> set (step_if P cur g) \<Longrightarrow>
     \<exists>c. P c \<and> snd cur = [c] @ snd (fst x) \<and> fst (fst x) = adv (fst cur) [c]"
  unfolding step_if_def adv_def
  by (cases "snd cur") (auto split: if_splits)

lemma matches_sound:
  "x \<in> set (matches r cur g) \<Longrightarrow>
     \<exists>w. snd cur = w @ snd (fst x) \<and> fst (fst x) = adv (fst cur) w \<and> w \<in> lang r"
proof (induction r cur g arbitrary: x rule: matches.induct)
  case (1 cur g)
  then have "snd cur = [] @ snd (fst x)" "fst (fst x) = adv (fst cur) []" by simp_all
  moreover have "[] \<in> lang Eps" by simp
  ultimately show ?case by blast
next
  case (2 c cur g)
  then have "x \<in> set (step_if (\<lambda>x. x = c) cur g)" by simp
  from step_if_sound[OF this] have
    "snd cur = [c] @ snd (fst x)" "fst (fst x) = adv (fst cur) [c]" by simp_all
  moreover have "[c] \<in> lang (Lit c)" by simp
  ultimately show ?case by blast
next
  case (3 P cur g)
  then have "x \<in> set (step_if P cur g)" by simp
  from step_if_sound[OF this] obtain c where
    "P c" "snd cur = [c] @ snd (fst x)" "fst (fst x) = adv (fst cur) [c]" by blast
  moreover from this(1) have "[c] \<in> lang (Cls P)" by simp
  ultimately show ?case by blast
next
  case (4 cur g)
  then have "x = (cur, g)" by (simp split: if_splits)
  then have "snd cur = [] @ snd (fst x)" "fst (fst x) = adv (fst cur) []" by simp_all
  moreover have "[] \<in> lang Bound" by simp
  ultimately show ?case by blast
next
  case (5 a b cur g)
  then obtain y where y: "y \<in> set (matches a cur g)" "x \<in> set (matches b (fst y) (snd y))"
    by auto
  from "5.IH"(1)[OF y(1)] obtain u where
    u: "snd cur = u @ snd (fst y)" "fst (fst y) = adv (fst cur) u" "u \<in> lang a" by blast
  from "5.IH"(2)[OF y(1) y(2)] obtain v where
    v: "snd (fst y) = v @ snd (fst x)" "fst (fst x) = adv (fst (fst y)) v" "v \<in> lang b" by blast
  have "snd cur = (u @ v) @ snd (fst x)" using u(1) v(1) by simp
  moreover have "fst (fst x) = adv (fst cur) (u @ v)" using u(2) v(2) by simp
  moreover have "u @ v \<in> lang (Seq a b)" using u(3) v(3) by auto
  ultimately show ?case by blast
next
  case (6 a b cur g)
  from "6.prems" have "x \<in> set (matches a cur g) \<or> x \<in> set (matches b cur g)" by simp
  then show ?case
  proof
    assume "x \<in> set (matches a cur g)"
    from "6.IH"(1)[OF this] obtain w where
      "snd cur = w @ snd (fst x)" "fst (fst x) = adv (fst cur) w" "w \<in> lang a" by blast
    moreover from this(3) have "w \<in> lang (Alt a b)" by simp
    ultimately show ?thesis by blast
  next
    assume "x \<in> set (matches b cur g)"
    from "6.IH"(2)[OF this] obtain w where
      "snd cur = w @ snd (fst x)" "fst (fst x) = adv (fst cur) w" "w \<in> lang b" by blast
    moreover from this(3) have "w \<in> lang (Alt a b)" by simp
    ultimately show ?thesis by blast
  qed
next
  case (7 a cur g)
  show ?case
  proof (cases "x = (cur, g)")
    case True
    then have "snd cur = [] @ snd (fst x)" "fst (fst x) = adv (fst cur) []" by simp_all
    moreover have "[] \<in> lang (Star a)" by (simp add: star_nil)
    ultimately show ?thesis by blast
  next
    case False
    with "7.prems" obtain y where y: "y \<in> set (filter (shorter cur) (matches a cur g))"
      "x \<in> set (matches (Star a) (fst y) (snd y))"
      by (auto simp: matches.simps(7)[of a cur g])
    from y(1) have y1: "y \<in> set (matches a cur g)" by simp
    from "7.IH"(1)[OF y1] obtain u where
      u: "snd cur = u @ snd (fst y)" "fst (fst y) = adv (fst cur) u" "u \<in> lang a" by blast
    from "7.IH"(2)[OF y] obtain v where
      v: "snd (fst y) = v @ snd (fst x)" "fst (fst x) = adv (fst (fst y)) v" "v \<in> lang (Star a)"
      by blast
    have "snd cur = (u @ v) @ snd (fst x)" using u(1) v(1) by simp
    moreover have "fst (fst x) = adv (fst cur) (u @ v)" using u(2) v(2) by simp
    moreover have "u @ v \<in> lang (Star a)" using u(3) v(3) by (simp add: star_app)
    ultimately show ?thesis by blast
  qed
next
  case (8 n a cur g)
  then obtain y where y: "y \<in> set (matches a cur g)" "x = capture n cur y" by auto
  from "8.IH"[OF y(1)] obtain w where
    "snd cur = w @ snd (fst y)" "fst (fst y) = adv (fst cur) w" "w \<in> lang a" by blast
  moreover have "fst x = fst y" using y(2) by (simp add: capture_def)
  ultimately have "snd cur = w @ snd (fst x)" "fst (fst x) = adv (fst cur) w" "w \<in> lang (Grp n a)"
    by simp_all
  then show ?case by blast
qed

lemma matches_Seq_step:
  "y \<in> set (matches a cur g) \<Longrightarrow> x \<in> set (matches b (fst y) (snd y)) \<Longrightarrow>
     x \<in> set (matches (Seq a b) cur g)"
  by auto

lemma matches_Star_step:
  "y \<in> set (matches a (p, s) g) \<Longrightarrow> shorter (p, s) y \<Longrightarrow>
     x \<in> set (matches (Star a) (fst y) (snd y)) \<Longrightarrow> x \<in> set (matches (Star a) (p, s) g)"
proof -
  assume y: "y \<in> set (matches a (p, s) g)" and sh: "shorter (p, s) y"
    and x: "x \<in> set (matches (Star a) (fst y) (snd y))"
  from y sh have "y \<in> set (filter (shorter (p, s)) (matches a (p, s) g))" by simp
  then have "set (matches (Star a) (fst y) (snd y))
      \<subseteq> set (concat (map (\<lambda>r. matches (Star a) (fst r) (snd r))
                          (filter (shorter (p, s)) (matches a (p, s) g))))"
    unfolding set_concat set_map by blast
  with x show ?thesis by (subst matches_Star) auto
qed

lemma matches_Star_stop: "((p, s), g) \<in> set (matches (Star a) (p, s) g)"
  by (subst matches_Star) simp

lemma star_complete:
  assumes ih: "\<And>w p t g. w \<in> lang a \<Longrightarrow> \<exists>g'. ((adv p w, t), g') \<in> set (matches a (p, w @ t) g)"
  shows "w \<in> star (lang a) \<Longrightarrow> \<exists>g'. ((adv p w, t), g') \<in> set (matches (Star a) (p, w @ t) g)"
proof (induction w arbitrary: p g rule: star.induct)
  case star_nil
  show ?case using matches_Star_stop[of p t g a] by auto
next
  case (star_app u v)
  show ?case
  proof (cases "u = []")
    case True
    with star_app.IH show ?thesis by simp
  next
    case False
    from ih[OF star_app.hyps(1)] obtain g1 where
      g1: "((adv p u, v @ t), g1) \<in> set (matches a (p, u @ (v @ t)) g)" by blast
    from star_app.IH obtain g2 where
      g2: "((adv (adv p u) v, t), g2) \<in> set (matches (Star a) (adv p u, v @ t) g1)" by blast
    from False have sh: "shorter (p, u @ v @ t) ((adv p u, v @ t), g1)"
      by (simp add: shorter_def)
    have "((adv (adv p u) v, t), g2) \<in> set (matches (Star a) (p, u @ v @ t) g)"
      by (rule matches_Star_step[OF g1 sh]) (use g2 in simp)
    then have "((adv p (u @ v), t), g2) \<in> set (matches (Star a) (p, (u @ v) @ t) g)"
      by simp
    then show ?thesis by blast
  qed
qed

lemma matches_complete:
  "bound_free r \<Longrightarrow> w \<in> lang r \<Longrightarrow> \<exists>g'. ((adv p w, t), g') \<in> set (matches r (p, w @ t) g)"
proof (induction r arbitrary: w p t g)
  case Eps
  then show ?case by simp
next
  case (Lit c)
  then show ?case by (simp add: adv_def)
next
  case (Cls P)
  then obtain c where "w = [c]" "P c" by auto
  then show ?case by (simp add: adv_def)
next
  case Bound
  then show ?case by simp
next
  case (Seq a b)
  from Seq.prems obtain u v where uv: "w = u @ v" "u \<in> lang a" "v \<in> lang b" by auto
  from Seq.prems have bf: "bound_free a" "bound_free b" by simp_all
  from Seq.IH(1)[OF bf(1) uv(2)] obtain g1 where
    g1: "((adv p u, v @ t), g1) \<in> set (matches a (p, u @ (v @ t)) g)" by blast
  from Seq.IH(2)[OF bf(2) uv(3)] obtain g2 where
    g2: "((adv (adv p u) v, t), g2) \<in> set (matches b (adv p u, v @ t) g1)" by blast
  have "((adv (adv p u) v, t), g2) \<in> set (matches (Seq a b) (p, u @ v @ t) g)"
    by (rule matches_Seq_step[OF g1]) (use g2 in simp)
  with uv(1) have "((adv p w, t), g2) \<in> set (matches (Seq a b) (p, w @ t) g)"
    by simp
  then show ?case by blast
next
  case (Alt a b)
  from Alt.prems have bf: "bound_free a" "bound_free b" by simp_all
  from Alt.prems(2) have "w \<in> lang a \<or> w \<in> lang b" by simp
  then show ?case
  proof
    assume "w \<in> lang a"
    from Alt.IH(1)[OF bf(1) this] obtain g1 where
      "((adv p w, t), g1) \<in> set (matches a (p, w @ t) g)" by blast
    then have "((adv p w, t), g1) \<in> set (matches (Alt a b) (p, w @ t) g)" by simp
    then show ?thesis by blast
  next
    assume "w \<in> lang b"
    from Alt.IH(2)[OF bf(2) this] obtain g1 where
      "((adv p w, t), g1) \<in> set (matches b (p, w @ t) g)" by blast
    then have "((adv p w, t), g1) \<in> set (matches (Alt a b) (p, w @ t) g)" by simp
    then show ?thesis by blast
  qed
next
  case (Star a)
  from Star.prems have bf: "bound_free a" and w: "w \<in> star (lang a)" by simp_all
  show ?case using star_complete[OF Star.IH[OF bf] w] .
next
  case (Grp n a)
  from Grp.prems have bf: "bound_free a" and w: "w \<in> lang a" by simp_all
  from Grp.IH[OF bf w] obtain g1 where
    "((adv p w, t), g1) \<in> set (matches a (p, w @ t) g)" by blast
  then have "capture n (p, w @ t) ((adv p w, t), g1) \<in> set (matches (Grp n a) (p, w @ t) g)"
    by simp
  then show ?case by (auto simp: capture_def)
qed

section \<open>The tables on Basic Latin\<close>

text \<open>What the tables say below their first entry outside Basic Latin.\<close>

lemma decimal_low:
  "c < 1632 \<Longrightarrow> decimal c = (if 48 \<le> c \<and> c \<le> 57 then Some (c - 48) else None)"
  by (simp add: decimal_def digit_zeros_def)

lemma is_digit_low: "c < 1632 \<Longrightarrow> is_digit c = (48 \<le> c \<and> c \<le> 57)"
  by (simp add: is_digit_def decimal_low)

lemma digit_val_low: "c < 1632 \<Longrightarrow> digit_val c = (if 48 \<le> c \<and> c \<le> 57 then c - 48 else 0)"
  by (simp add: digit_val_def decimal_low)

lemma is_word_low:
  "c < 170 \<Longrightarrow>
     is_word c = ((48 \<le> c \<and> c \<le> 57) \<or> (65 \<le> c \<and> c \<le> 90) \<or> c = 95 \<or> (97 \<le> c \<and> c \<le> 122))"
  by (auto simp: is_word_def word_ranges_def)

lemma lower_ch_low: "c < 192 \<Longrightarrow> lower_ch c = [if 65 \<le> c \<and> c \<le> 90 then c + 32 else c]"
  by (auto simp: lower_ch_def lower_table_def)

lemma lower_from_low:
  "c < 192 \<Longrightarrow>
     lower_from before (c # cs) =
       (if 65 \<le> c \<and> c \<le> 90 then c + 32 else c) # lower_from (c # before) cs"
  by (simp add: lower_ch_low)

text \<open>A decimal digit is one of the ten that follow a digit zero, and no white space.\<close>

lemma decimal_in_range:
  "decimal_in zs c = Some v \<Longrightarrow> \<exists>z\<in>set zs. z \<le> c \<and> c \<le> z + 9 \<and> v = c - z"
  by (induction zs) (auto split: if_splits)

lemma high_space_points:
  "is_space c \<Longrightarrow> 1632 \<le> c \<Longrightarrow>
     c \<in> set [5760, 8192, 8193, 8194, 8195, 8196, 8197, 8198, 8199, 8200, 8201, 8202,
               8232, 8233, 8239, 8287, 12288]"
  unfolding is_space_def by (auto; arith)

lemma high_space_no_digit:
  "list_all (\<lambda>c. \<not> is_digit c)
     [5760, 8192, 8193, 8194, 8195, 8196, 8197, 8198, 8199, 8200, 8201, 8202,
      8232, 8233, 8239, 8287, 12288]"
  by (simp add: is_digit_def decimal_def digit_zeros_def)

lemma digit_not_space: "is_digit c \<Longrightarrow> \<not> is_space c"
proof (cases "c < 1632")
  case True
  assume "is_digit c"
  with True have "48 \<le> c \<and> c \<le> 57" by (simp add: is_digit_low)
  then show ?thesis by (simp add: is_space_def)
next
  case False
  assume d: "is_digit c"
  show ?thesis
  proof
    assume "is_space c"
    from high_space_points[OF this] False high_space_no_digit d show False
      by (auto simp: list_all_iff)
  qed
qed

lemma digit_val_less: "digit_val c < 10"
proof (cases "decimal c")
  case None
  then show ?thesis by (simp add: digit_val_def)
next
  case (Some v)
  from decimal_in_range[OF Some[unfolded decimal_def]] have "v < 10" by auto
  with Some show ?thesis by (simp add: digit_val_def)
qed

text \<open>The case variants of the letters of the two case-insensitive patterns.\<close>

lemma ignorecase_letters:
  "ignorecase 68 = [68, 100]"
  "ignorecase 75 = [75, 107, 8490]"
  "ignorecase 76 = [76, 108]"
  "ignorecase 79 = [79, 111]"
  "ignorecase 80 = [80, 112]"
  "ignorecase 83 = [83, 115, 383]"
  "ignorecase 97 = [65, 97]"
  "ignorecase 99 = [67, 99]"
  "ignorecase 100 = [68, 100]"
  "ignorecase 101 = [69, 101]"
  "ignorecase 104 = [72, 104]"
  "ignorecase 105 = [73, 105, 304, 305]"
  "ignorecase 107 = [75, 107, 8490]"
  "ignorecase 109 = [77, 109]"
  "ignorecase 110 = [78, 110]"
  "ignorecase 111 = [79, 111]"
  "ignorecase 112 = [80, 112]"
  "ignorecase 114 = [82, 114]"
  "ignorecase 115 = [83, 115, 383]"
  "ignorecase 116 = [84, 116]"
  "ignorecase 118 = [86, 118]"
  "ignorecase 119 = [87, 119]"
  by (simp_all add: ignorecase_def ignorecase_table_def)

section \<open>Evaluation\<close>

text \<open>The equations that run the model on a given text.\<close>

lemmas run_simps =
  ustr_def is_space_def is_digit_low is_word_low lower_def lower_ch_low
  digit_val_low number_value_def int_of_def int_max_str_digits_def ignorecase_letters
  strip_def strip_by_def strip_chars_def
  word_before_def word_after_def at_boundary_def shorter_def capture_def matches_Star
  Plus_def Opt_def AtLeast2_def word_def word_i_def group_def group_text_def mk_match_def
  search_from.simps search_def fullmatch_def finditer.simps re_sub.simps Let_def
  enumerate0_def

lemmas mac_simps =
  os_pat_def should_include_os_def mac_header_step_def mac_header_indices_def mac_row_def
  mac_parse_table_def LABEL_PAT_def label_loop.simps split_category_labels_def clean_sub_def
  collect_systems_def dedup_step_def clean_supported_systems_def version_def is_dash_def
  range_body_def os_full_pat_def os_range_pat_def os_single_pat_def normalize_os_def

lemmas xcode_simps =
  clean_version_text_def ver_x_def ver_dotted_def macos_range_pat_def dotted_pat_def
  ver_x_pat_def findall1_def parse_macos_versions_def platform_names_def ver3_def
  sdk_pat_def sdk_step_def parse_sdk_column_def xcode_header_step_def
  xcode_header_indices_def xcode_pat_def max_index_def xcode_row_def xcode_parse_table_def

section \<open>The first result of the matcher\<close>

text \<open>
  \<open>re.search\<close> returns the first result at the leftmost position that has one.
  For a greedy run of one class that result ends where the run ends.
\<close>

definition first_match :: "regex \<Rightarrow> cursor \<Rightarrow> groups \<Rightarrow> (cursor \<times> groups) option" where
  "first_match r cur g = (case matches r cur g of [] \<Rightarrow> None | x # _ \<Rightarrow> Some x)"

definition run_end :: "(uchar \<Rightarrow> bool) \<Rightarrow> cursor \<Rightarrow> cursor" where
  "run_end P cur =
     (if takeWhile P (snd cur) = [] then cur
      else (Some (last (takeWhile P (snd cur))), dropWhile P (snd cur)))"

lemma first_match_None [simp]: "(first_match r cur g = None) = (matches r cur g = [])"
  by (simp add: first_match_def split: list.splits)

lemma first_Seq:
  "first_match a cur g = Some y \<Longrightarrow> first_match b (fst y) (snd y) = Some x \<Longrightarrow>
     first_match (Seq a b) cur g = Some x"
  by (auto simp: first_match_def split: list.splits)

lemma first_Seq_none: "matches a cur g = [] \<Longrightarrow> matches (Seq a b) cur g = []"
  by simp

lemma first_Alt_left: "first_match a cur g = Some x \<Longrightarrow> first_match (Alt a b) cur g = Some x"
  by (auto simp: first_match_def split: list.splits)

lemma first_Alt_right: "matches a cur g = [] \<Longrightarrow> first_match (Alt a b) cur g = first_match b cur g"
  by (simp add: first_match_def)

lemma first_Grp:
  "first_match a cur g = Some y \<Longrightarrow> first_match (Grp n a) cur g = Some (capture n cur y)"
  by (auto simp: first_match_def split: list.splits)

lemma run_end_step: "P c \<Longrightarrow> run_end P (Some c, cs) = run_end P (p, c # cs)"
  by (cases cs) (auto simp: run_end_def)

lemma first_Star_cls: "first_match (Star (Cls P)) (p, s) g = Some (run_end P (p, s), g)"
proof (induction s arbitrary: p)
  case Nil
  show ?case by (simp add: first_match_def matches_Star run_end_def)
next
  case (Cons c cs)
  show ?case
  proof (cases "P c")
    case True
    from Cons.IH[of "Some c"] True run_end_step[of P c cs p] show ?thesis
      by (simp add: first_match_def matches_Star[of "Cls P" p "c # cs"] shorter_def
               split: list.splits)
  next
    case False
    then show ?thesis by (simp add: first_match_def matches_Star run_end_def)
  qed
qed

lemma first_Plus_cls:
  "P c \<Longrightarrow> first_match (Plus (Cls P)) (p, c # cs) g = Some (run_end P (p, c # cs), g)"
  using first_Star_cls[of P "Some c" cs g] run_end_step[of P c cs p]
  by (simp add: Plus_def first_match_def split: list.splits)


section \<open>The inclusion filter reads the first numeric token\<close>





















section \<open>The SDK column keeps the spelling of the page\<close>

lemma parse_sdk_column_example:
  "parse_sdk_column (ustr ''iOS 16.1 tvOS 16.1 watchOS 9.1 macOS 13 DriverKit 22.1'') =
     [(ustr ''iOS'', ustr ''16.1''), (ustr ''tvOS'', ustr ''16.1''),
      (ustr ''watchOS'', ustr ''9.1''), (ustr ''macOS'', ustr ''13''),
      (ustr ''DriverKit'', ustr ''22.1'')]"
  by (simp add: run_simps xcode_simps)

text \<open>
  C3.  The platform names are matched whatever their case, but the key that
  \<open>parse_sdk_column\<close> stores is the matched text itself, stripped, and not the
  spelling of the name list: for the cell \<open>ios 17.0\<close> the only key is \<open>ios\<close>, which is
  none of the seven names.
\<close>

theorem parse_sdk_column_key_as_found:
  "parse_sdk_column (ustr ''ios 17.0'') = [(ustr ''ios'', ustr ''17.0'')]
   \<and> ustr ''ios'' \<notin> set (map ustr platform_names)"
  by (simp add: run_simps xcode_simps)

section \<open>The list of supported systems has no repetition\<close>

lemma remdups_drop_earlier: "x \<in> set B \<Longrightarrow> remdups (A @ x # B) = remdups (A @ B)"
  by (induction A) auto

lemma dedup_loop:
  "distinct u \<Longrightarrow> snd (foldl dedup_step (set u, u) xs) = rev (remdups (rev (u @ xs)))"
proof (induction xs arbitrary: u)
  case Nil
  then show ?case by (simp add: distinct_remdups_id)
next
  case (Cons x xs)
  show ?case
  proof (cases "x \<in> set u")
    case True
    then have "dedup_step (set u, u) x = (set u, u)" by (simp add: dedup_step_def)
    moreover from True have "remdups (rev xs @ x # rev u) = remdups (rev xs @ rev u)"
      by (intro remdups_drop_earlier) simp
    ultimately show ?thesis using Cons.IH[OF Cons.prems] by simp
  next
    case False
    then have "dedup_step (set u, u) x = (set (u @ [x]), u @ [x])" by (simp add: dedup_step_def)
    moreover from False Cons.prems have "distinct (u @ [x])" by simp
    ultimately show ?thesis using Cons.IH[of "u @ [x]"] by simp
  qed
qed

text \<open>
  C8.  The list that \<open>clean_supported_systems\<close> returns has no duplicates, holds
  exactly the cleaned entries, and keeps them in the order of their first
  occurrence: it is the list of the cleaned entries with every later repetition
  removed.  \<open>Mac Mini, Mac Mini\<close> gives the one entry \<open>Mac Mini\<close>.
\<close>

theorem clean_supported_systems_dedup:
  "distinct (clean_supported_systems raw_items)
   \<and> set (clean_supported_systems raw_items) = set (collect_systems raw_items)
   \<and> clean_supported_systems raw_items = rev (remdups (rev (collect_systems raw_items)))
   \<and> clean_supported_systems [ustr ''Mac Mini, Mac Mini''] = [ustr ''Mac Mini'']"
proof -
  have eq: "clean_supported_systems raw_items = rev (remdups (rev (collect_systems raw_items)))"
    for raw_items
    using dedup_loop[of "[]" "collect_systems raw_items"]
    by (simp add: clean_supported_systems_def)
  have "clean_supported_systems [ustr ''Mac Mini, Mac Mini''] = [ustr ''Mac Mini'']"
    by (simp add: run_simps mac_simps)
  with eq[of raw_items] show ?thesis by simp
qed

section \<open>Which header gives a column\<close>

text \<open>
  The index of the first and of the last element of a list that satisfies a
  predicate, \<open>None\<close> when no element does.
\<close>

definition first_index :: "('a \<Rightarrow> bool) \<Rightarrow> 'a list \<Rightarrow> nat option" where
  "first_index P xs = map_option fst (find (\<lambda>ih. P (snd ih)) (enumerate0 xs))"

definition last_index :: "('a \<Rightarrow> bool) \<Rightarrow> 'a list \<Rightarrow> nat option" where
  "last_index P xs = map_option fst (find (\<lambda>ih. P (snd ih)) (rev (enumerate0 xs)))"

text \<open>The tests of the two header loops, on a header of the macOS table and on a
  lower-cased header of the Xcode table.\<close>

definition is_os_header :: "ustring \<Rightarrow> bool" where
  "is_os_header h = startswith (lower h) (ustr ''operating system'')"

definition is_sup_header :: "ustring \<Rightarrow> bool" where
  "is_sup_header h = startswith (lower h) (ustr ''supported systems'')"

definition is_xcode_header :: "ustring \<Rightarrow> bool" where
  "is_xcode_header h = contains (ustr ''xcode'') h"

definition is_macos_header :: "ustring \<Rightarrow> bool" where
  "is_macos_header h =
     (\<not> is_xcode_header h \<and>
      (contains (ustr ''macos'') h \<or> contains (ustr ''minimum'') h \<or> contains (ustr ''os'') h))"

definition is_sdk_header :: "ustring \<Rightarrow> bool" where
  "is_sdk_header h =
     (\<not> is_xcode_header h \<and> \<not> is_macos_header h \<and> contains (ustr ''sdk'') h)"

lemma enumerate0_snoc: "enumerate0 (xs @ [x]) = enumerate0 xs @ [(length xs, x)]"
  by (simp add: enumerate0_def)

lemma last_index_Nil [simp]: "last_index P [] = None"
  by (simp add: last_index_def enumerate0_def)

lemma last_index_snoc:
  "last_index P (xs @ [x]) = (if P x then Some (length xs) else last_index P xs)"
  by (simp add: last_index_def enumerate0_snoc)

lemma mac_header_indices_last:
  "mac_header_indices hs = (last_index is_os_header hs, last_index is_sup_header hs)"
proof (induction hs rule: rev_induct)
  case Nil
  show ?case by (simp add: mac_header_indices_def enumerate0_def)
next
  case (snoc h hs)
  then show ?case
    by (simp add: mac_header_indices_def enumerate0_snoc last_index_snoc mac_header_step_def
          is_os_header_def is_sup_header_def Let_def)
qed

lemma xcode_header_indices_last:
  "xcode_header_indices hs =
     (last_index is_xcode_header hs, last_index is_macos_header hs, last_index is_sdk_header hs)"
proof (induction hs rule: rev_induct)
  case Nil
  show ?case by (simp add: xcode_header_indices_def enumerate0_def)
next
  case (snoc h hs)
  then show ?case
    by (simp add: xcode_header_indices_def enumerate0_snoc last_index_snoc xcode_header_step_def
          is_xcode_header_def is_macos_header_def is_sdk_header_def Let_def)
qed

text \<open>
  C4, as the claim states it, fails: of two headers that contain \<open>xcode\<close> the
  loop keeps the second, and a row is read at that column.
\<close>

theorem header_first_match_counterexample:
  "first_index is_xcode_header [ustr ''xcode'', ustr ''xcode build''] = Some 0
   \<and> xcode_header_indices [ustr ''xcode'', ustr ''xcode build''] = (Some 1, None, None)
   \<and> xcode_parse_table \<lparr>ths = [ustr ''Xcode'', ustr ''Xcode build''],
                          trs = [[ustr ''Xcode'', ustr ''Xcode build''], [ustr ''15.0'', ustr ''16.1'']]\<rparr>
       = Inr [\<lparr>xcode_version = ustr ''16.1'', macos_version = [], sdks = []\<rparr>]
   \<and> first_index is_os_header [ustr ''Operating system'', ustr ''Operating system family'',
                                 ustr ''Supported systems''] = Some 0
   \<and> mac_header_indices [ustr ''Operating system'', ustr ''Operating system family'',
                          ustr ''Supported systems''] = (Some 1, Some 2)"
  by (simp add: first_index_def is_xcode_header_def is_os_header_def run_simps mac_simps xcode_simps)

text \<open>
  C4, amended.  In both row extractors the column chosen for a role is that of
  the last header, in header order, that takes the branch of the role: every
  matching header overwrites the index.  In the Xcode loop a header takes the
  macOS branch only when it does not contain \<open>xcode\<close>, and the SDK branch only when
  it takes neither of the other two.
\<close>

theorem header_last_match_wins:
  "mac_header_indices hs = (last_index is_os_header hs, last_index is_sup_header hs)
   \<and> xcode_header_indices hs =
       (last_index is_xcode_header hs, last_index is_macos_header hs, last_index is_sdk_header hs)"
  using mac_header_indices_last[of hs] xcode_header_indices_last[of hs] by simp

section \<open>Which rows of the Xcode table are skipped\<close>

lemma max_index_le:
  "(n \<le> max_index ix im isd) =
     (n \<le> ix \<or> (case im of Some i \<Rightarrow> n \<le> i | None \<Rightarrow> False)
             \<or> (case isd of Some i \<Rightarrow> n \<le> i | None \<Rightarrow> False))"
  by (cases im; cases isd) (auto simp: max_index_def)

lemma max_index_bounds:
  "\<not> n \<le> max_index ix im isd \<Longrightarrow>
     ix < n \<and> (case im of Some i \<Rightarrow> i < n | None \<Rightarrow> True)
            \<and> (case isd of Some i \<Rightarrow> i < n | None \<Rightarrow> True)"
  by (cases im; cases isd) (auto simp: max_index_def)

text \<open>
  C5, as the claim states it, fails: with the three columns detected, a row of
  one cell covers the Xcode column and holds a version, and is skipped.
\<close>

theorem short_row_counterexample:
  "xcode_header_indices (map lower [ustr ''Xcode'', ustr ''Minimum macOS'', ustr ''SDK''])
     = (Some 0, Some 1, Some 2)
   \<and> search xcode_pat (clean_version_text (ustr ''Xcode 15.0'')) \<noteq> None
   \<and> xcode_row 0 (Some 1) (Some 2) [ustr ''Xcode 15.0''] = []
   \<and> xcode_parse_table \<lparr>ths = [ustr ''Xcode'', ustr ''Minimum macOS'', ustr ''SDK''],
                          trs = [[ustr ''Xcode'', ustr ''Minimum macOS'', ustr ''SDK''],
                                 [ustr ''Xcode 15.0'']]\<rparr> = Inr []"
  by (simp add: run_simps xcode_simps)

text \<open>
  C5, amended.  A data row is skipped when it has too few cells for the highest
  detected column, the Xcode column or a detected macOS or SDK column, or when
  its Xcode cell holds no version.  Every other row gives one record, in which
  the macOS requirement and the SDKs are what their normalizers make of their
  cells whenever their columns were detected, and are empty when they were not.
\<close>

theorem xcode_row_skip_rule:
  "xcode_row idx_xcode idx_macos idx_sdk cells =
     (if length cells \<le> idx_xcode
         \<or> (case idx_macos of Some i \<Rightarrow> length cells \<le> i | None \<Rightarrow> False)
         \<or> (case idx_sdk of Some i \<Rightarrow> length cells \<le> i | None \<Rightarrow> False)
      then []
      else
        (case search xcode_pat (clean_version_text (cells ! idx_xcode)) of
           None \<Rightarrow> []
         | Some m \<Rightarrow>
             [\<lparr>xcode_version = group_text m 1,
               macos_version =
                 (case idx_macos of None \<Rightarrow> [] | Some i \<Rightarrow> parse_macos_versions (cells ! i)),
               sdks = (case idx_sdk of None \<Rightarrow> [] | Some i \<Rightarrow> parse_sdk_column (cells ! i))\<rparr>]))"
proof (cases "length cells \<le> max_index idx_xcode idx_macos idx_sdk")
  case True
  then show ?thesis
    using max_index_le[of "length cells" idx_xcode idx_macos idx_sdk]
    by (simp add: xcode_row_def)
next
  case False
  from max_index_bounds[OF False] False show ?thesis
    using max_index_le[of "length cells" idx_xcode idx_macos idx_sdk]
    by (cases idx_macos; cases idx_sdk) (simp_all add: xcode_row_def Let_def split: option.splits)
qed

section \<open>What a search returns\<close>

text \<open>What a group can capture, and the patterns whose every match sets a group.\<close>

fun glang :: "nat \<Rightarrow> regex \<Rightarrow> ustring set" where
  "glang n (Grp m a) = (if m = n then lang a else {}) \<union> glang n a"
| "glang n (Seq a b) = glang n a \<union> glang n b"
| "glang n (Alt a b) = glang n a \<union> glang n b"
| "glang n (Star a) = glang n a"
| "glang n r = {}"

fun sets_group :: "nat \<Rightarrow> regex \<Rightarrow> bool" where
  "sets_group n (Grp m a) = (m = n \<or> sets_group n a)"
| "sets_group n (Seq a b) = (sets_group n a \<or> sets_group n b)"
| "sets_group n (Alt a b) = (sets_group n a \<and> sets_group n b)"
| "sets_group n r = False"

lemma matches_word:
  "x \<in> set (matches r cur g) \<Longrightarrow>
     take (length (snd cur) - length (snd (fst x))) (snd cur) \<in> lang r"
proof -
  assume "x \<in> set (matches r cur g)"
  from matches_sound[OF this] obtain w where
    w: "snd cur = w @ snd (fst x)" "w \<in> lang r" by blast
  from w(1) have "take (length (snd cur) - length (snd (fst x))) (snd cur) = w" by simp
  with w(2) show ?thesis by simp
qed

lemma captured_sound:
  "x \<in> set (matches r cur g) \<Longrightarrow> map_of (snd x) n = Some w \<Longrightarrow>
     map_of g n = Some w \<or> w \<in> glang n r"
proof (induction r cur g arbitrary: x rule: matches.induct)
  case (1 cur g)
  then show ?case by simp
next
  case (2 c cur g)
  then show ?case by (auto simp: step_if_def split: list.splits if_splits)
next
  case (3 P cur g)
  then show ?case by (auto simp: step_if_def split: list.splits if_splits)
next
  case (4 cur g)
  then show ?case by (simp split: if_splits)
next
  case (5 a b cur g)
  from "5.prems"(1) obtain y where y: "y \<in> set (matches a cur g)"
    "x \<in> set (matches b (fst y) (snd y))" by auto
  from "5.IH"(2)[OF y(1) y(2) "5.prems"(2)]
  have "map_of (snd y) n = Some w \<or> w \<in> glang n b" .
  then show ?case
  proof
    assume "map_of (snd y) n = Some w"
    from "5.IH"(1)[OF y(1) this] show ?thesis by auto
  next
    assume "w \<in> glang n b"
    then show ?thesis by simp
  qed
next
  case (6 a b cur g)
  from "6.prems"(1) have "x \<in> set (matches a cur g) \<or> x \<in> set (matches b cur g)" by simp
  then show ?case
  proof
    assume "x \<in> set (matches a cur g)"
    from "6.IH"(1)[OF this "6.prems"(2)] show ?thesis by auto
  next
    assume "x \<in> set (matches b cur g)"
    from "6.IH"(2)[OF this "6.prems"(2)] show ?thesis by auto
  qed
next
  case (7 a cur g)
  show ?case
  proof (cases "x = (cur, g)")
    case True
    with "7.prems"(2) show ?thesis by simp
  next
    case False
    with "7.prems"(1) obtain y where y: "y \<in> set (filter (shorter cur) (matches a cur g))"
      "x \<in> set (matches (Star a) (fst y) (snd y))"
      by (auto simp: matches.simps(7)[of a cur g])
    from y(1) have y1: "y \<in> set (matches a cur g)" by simp
    from "7.IH"(2)[OF y "7.prems"(2)]
    have "map_of (snd y) n = Some w \<or> w \<in> glang n (Star a)" .
    then show ?thesis
    proof
      assume "map_of (snd y) n = Some w"
      from "7.IH"(1)[OF y1 this] show ?thesis by auto
    next
      assume "w \<in> glang n (Star a)"
      then show ?thesis by simp
    qed
  qed
next
  case (8 m a cur g)
  from "8.prems"(1) obtain y where y: "y \<in> set (matches a cur g)" "x = capture m cur y" by auto
  show ?case
  proof (cases "m = n")
    case True
    with y(2) "8.prems"(2)
    have "w = take (length (snd cur) - length (snd (fst y))) (snd cur)"
      by (simp add: capture_def)
    with matches_word[OF y(1)] True show ?thesis by simp
  next
    case False
    with y(2) "8.prems"(2) have "map_of (snd y) n = Some w" by (simp add: capture_def)
    from "8.IH"[OF y(1) this] show ?thesis by auto
  qed
qed

lemma groups_kept:
  "x \<in> set (matches r cur g) \<Longrightarrow> map_of g n \<noteq> None \<Longrightarrow> map_of (snd x) n \<noteq> None"
proof (induction r cur g arbitrary: x rule: matches.induct)
  case (5 a b cur g)
  from "5.prems"(1) obtain y where y: "y \<in> set (matches a cur g)"
    "x \<in> set (matches b (fst y) (snd y))" by auto
  from "5.IH"(2)[OF y(1) y(2) "5.IH"(1)[OF y(1) "5.prems"(2)]] show ?case .
next
  case (6 a b cur g)
  from "6.prems"(1) have "x \<in> set (matches a cur g) \<or> x \<in> set (matches b cur g)" by simp
  with "6.IH" "6.prems"(2) show ?case by blast
next
  case (7 a cur g)
  show ?case
  proof (cases "x = (cur, g)")
    case True
    with "7.prems"(2) show ?thesis by simp
  next
    case False
    with "7.prems"(1) obtain y where y: "y \<in> set (filter (shorter cur) (matches a cur g))"
      "x \<in> set (matches (Star a) (fst y) (snd y))"
      by (auto simp: matches.simps(7)[of a cur g])
    from y(1) have y1: "y \<in> set (matches a cur g)" by simp
    from "7.IH"(2)[OF y "7.IH"(1)[OF y1 "7.prems"(2)]] show ?thesis .
  qed
next
  case (8 m a cur g)
  from "8.prems"(1) obtain y where y: "y \<in> set (matches a cur g)" "x = capture m cur y" by auto
  from "8.IH"[OF y(1) "8.prems"(2)] y(2) show ?case by (simp add: capture_def)
qed (auto simp: step_if_def split: list.splits if_splits)

lemma captured_set:
  "sets_group n r \<Longrightarrow> x \<in> set (matches r cur g) \<Longrightarrow> map_of (snd x) n \<noteq> None"
proof (induction r arbitrary: x cur g)
  case (Seq a b)
  from Seq.prems(2) obtain y where y: "y \<in> set (matches a cur g)"
    "x \<in> set (matches b (fst y) (snd y))" by auto
  from Seq.prems(1) have "sets_group n a \<or> sets_group n b" by simp
  then show ?case
  proof
    assume "sets_group n a"
    from groups_kept[OF y(2) Seq.IH(1)[OF this y(1)]] show ?thesis .
  next
    assume "sets_group n b"
    from Seq.IH(2)[OF this y(2)] show ?thesis .
  qed
next
  case (Alt a b)
  from Alt.prems(1) have sg: "sets_group n a" "sets_group n b" by simp_all
  from Alt.prems(2) have "x \<in> set (matches a cur g) \<or> x \<in> set (matches b cur g)" by simp
  then show ?case
  proof
    assume "x \<in> set (matches a cur g)"
    from Alt.IH(1)[OF sg(1) this] show ?thesis .
  next
    assume "x \<in> set (matches b cur g)"
    from Alt.IH(2)[OF sg(2) this] show ?thesis .
  qed
next
  case (Grp m a)
  from Grp.prems(2) obtain y where y: "y \<in> set (matches a cur g)" "x = capture m cur y" by auto
  show ?case
  proof (cases "m = n")
    case True
    with y(2) show ?thesis by (simp add: capture_def)
  next
    case False
    with Grp.prems(1) have "sets_group n a" by simp
    from Grp.IH[OF this y(1)] y(2) show ?thesis by (simp add: capture_def)
  qed
qed simp_all

text \<open>A match object comes from a result of the matcher at some cursor of the text.\<close>

lemma search_from_result:
  "search_from r p s = Some m \<Longrightarrow>
     \<exists>cur x. x \<in> set (matches r cur []) \<and> grps m = snd x
        \<and> whole m = take (length (snd cur) - length (snd (fst x))) (snd cur)
        \<and> post m = fst x \<and> s = pre m @ snd cur"
proof (induction s arbitrary: p m)
  case Nil
  show ?case
  proof (cases "matches r (p, []) []")
    case Nil
    with Nil.prems show ?thesis by (simp add: search_from.simps[of r p "[]"])
  next
    case (Cons x xs)
    with Nil.prems have m: "m = mk_match (p, []) x"
      by (simp add: search_from.simps[of r p "[]"])
    from Cons have "x \<in> set (matches r (p, []) [])" by simp
    with m have "x \<in> set (matches r (p, []) []) \<and> grps m = snd x
        \<and> whole m = take (length (snd (p, [])) - length (snd (fst x))) (snd (p, []))
        \<and> post m = fst x \<and> [] = pre m @ snd (p, [])"
      by (simp add: mk_match_def)
    then show ?thesis by blast
  qed
next
  case (Cons c cs)
  show ?case
  proof (cases "matches r (p, c # cs) []")
    case Nil
    with Cons.prems obtain m' where m': "search_from r (Some c) cs = Some m'"
      "m = m'\<lparr>pre := c # pre m'\<rparr>"
      by (auto simp: search_from.simps[of r p "c # cs"])
    from Cons.IH[OF m'(1)] obtain cur x where
      "x \<in> set (matches r cur [])" "grps m' = snd x"
      "whole m' = take (length (snd cur) - length (snd (fst x))) (snd cur)"
      "post m' = fst x" "cs = pre m' @ snd cur" by blast
    with m'(2) have "x \<in> set (matches r cur []) \<and> grps m = snd x
        \<and> whole m = take (length (snd cur) - length (snd (fst x))) (snd cur)
        \<and> post m = fst x \<and> c # cs = pre m @ snd cur" by simp
    then show ?thesis by blast
  next
    case (Cons x xs)
    with Cons.prems have m: "m = mk_match (p, c # cs) x"
      by (simp add: search_from.simps[of r p "c # cs"])
    from Cons have "x \<in> set (matches r (p, c # cs) [])" by simp
    with m have "x \<in> set (matches r (p, c # cs) []) \<and> grps m = snd x
        \<and> whole m = take (length (snd (p, c # cs)) - length (snd (fst x))) (snd (p, c # cs))
        \<and> post m = fst x \<and> c # cs = pre m @ snd (p, c # cs)"
      by (simp add: mk_match_def)
    then show ?thesis by blast
  qed
qed

lemma search_from_group:
  assumes "sets_group n r" and "search_from r p s = Some m"
  shows "\<exists>w. group m n = Some w \<and> group_text m n = w \<and> w \<in> glang n r"
proof -
  from search_from_result[OF assms(2)] obtain cur x where
    x: "x \<in> set (matches r cur [])" "grps m = snd x" by blast
  from captured_set[OF assms(1) x(1)] obtain w where w: "map_of (snd x) n = Some w" by auto
  from captured_sound[OF x(1) w] have "w \<in> glang n r" by simp
  with w x(2) show ?thesis by (simp add: group_def group_text_def)
qed

lemma search_from_whole: "search_from r p s = Some m \<Longrightarrow> whole m \<in> lang r"
proof -
  assume "search_from r p s = Some m"
  from search_from_result[OF this] obtain cur x where
    "x \<in> set (matches r cur [])"
    "whole m = take (length (snd cur) - length (snd (fst x))) (snd cur)" by blast
  with matches_word[of x r cur "[]"] show ?thesis by simp
qed

lemma search_from_split:
  "search_from r p s = Some m \<Longrightarrow> s = pre m @ whole m @ snd (post m)"
proof -
  assume "search_from r p s = Some m"
  from search_from_result[OF this] obtain cur x where
    x: "x \<in> set (matches r cur [])"
    "whole m = take (length (snd cur) - length (snd (fst x))) (snd cur)"
    "post m = fst x" "s = pre m @ snd cur" by blast
  from matches_sound[OF x(1)] obtain w where w: "snd cur = w @ snd (fst x)" by blast
  then have "take (length (snd cur) - length (snd (fst x))) (snd cur) = w" by simp
  with x w show ?thesis by simp
qed

lemma finditer_from_search:
  "m \<in> set (finditer r p s) \<Longrightarrow> \<exists>p' s'. search_from r p' s' = Some m"
proof (induction r p s rule: finditer.induct)
  case (1 r p s)
  show ?case
  proof (cases "search_from r p s")
    case None
    with "1.prems" show ?thesis by (simp add: finditer.simps[of r p s])
  next
    case (Some m0)
    show ?thesis
    proof (cases "m = m0")
      case True
      with Some show ?thesis by blast
    next
      case False
      show ?thesis
      proof (cases "whole m0 = []")
        case True
        show ?thesis
        proof (cases "snd (post m0)")
          case Nil
          with True False Some "1.prems" show ?thesis by (simp add: finditer.simps[of r p s])
        next
          case (Cons c cs)
          with True False Some "1.prems" have "m \<in> set (finditer r (Some c) cs)"
            by (simp add: finditer.simps[of r p s])
          from "1.IH"(1)[OF Some True Cons this] show ?thesis .
        qed
      next
        case nonempty: False
        with False Some "1.prems" have "m \<in> set (finditer r (fst (post m0)) (snd (post m0)))"
          by (simp add: finditer.simps[of r p s])
        from "1.IH"(2)[OF Some nonempty this] show ?thesis .
      qed
    qed
  qed
qed

section \<open>Facts of the tables\<close>

text \<open>The white space, a decimal digit and a word character.\<close>

definition space_ranges :: "(nat \<times> nat) list" where
  "space_ranges = [(9, 13), (28, 32), (133, 133), (160, 160), (5760, 5760), (8192, 8202),
     (8232, 8233), (8239, 8239), (8287, 8287), (12288, 12288)]"

lemma is_space_ranges: "is_space c \<Longrightarrow> \<exists>(a, b)\<in>set space_ranges. a \<le> c \<and> c \<le> b"
  unfolding is_space_def space_ranges_def by (elim disjE conjE) simp_all

lemma in_ranges_mem: "in_ranges rs c \<Longrightarrow> \<exists>(lo, hi)\<in>set rs. lo \<le> c \<and> c \<le> hi"
  by (induction rs) (auto split: if_splits)

lemma word_ranges_no_space:
  "list_all (\<lambda>(lo, hi). lo \<le> hi \<and> list_all (\<lambda>(a, b). hi < a \<or> b < lo) space_ranges) word_ranges"
  unfolding word_ranges_def space_ranges_def
  by (simp only: list.pred_inject prod.case rel_simps simp_thms)

lemma space_not_word: "is_space c \<Longrightarrow> \<not> is_word c"
proof
  assume "is_space c" and "is_word c"
  from is_space_ranges[OF this(1)] obtain a b where
    ab: "(a, b) \<in> set space_ranges" "a \<le> c" "c \<le> b" by blast
  from in_ranges_mem[OF \<open>is_word c\<close>[unfolded is_word_def]] obtain lo hi where
    lh: "(lo, hi) \<in> set word_ranges" "lo \<le> c" "c \<le> hi" by blast
  from word_ranges_no_space lh(1) ab(1) have "hi < a \<or> b < lo"
    by (auto simp: list_all_iff)
  with ab lh show False by arith
qed

text \<open>
  \<open>covered zs rs\<close>: every block of ten digits that starts at a code point of \<open>zs\<close>
  lies within a range of \<open>rs\<close>, both lists ascending.
\<close>

fun covered :: "nat list \<Rightarrow> (nat \<times> nat) list \<Rightarrow> bool" where
  "covered [] rs = True"
| "covered (z # zs) [] = False"
| "covered (z # zs) ((lo, hi) # rs) =
     (if hi < z then lo \<le> hi \<and> covered (z # zs) rs
      else lo \<le> z \<and> z + 9 \<le> hi \<and> covered zs ((lo, hi) # rs))"

lemma covered_in_ranges:
  "covered zs rs \<Longrightarrow> sorted zs \<Longrightarrow> z \<in> set zs \<Longrightarrow> z \<le> c \<Longrightarrow> c \<le> z + 9 \<Longrightarrow> in_ranges rs c"
proof (induction zs rs rule: covered.induct)
  case (1 rs)
  then show ?case by simp
next
  case (2 z' zs)
  then show ?case by simp
next
  case (3 z' zs lo hi rs)
  show ?case
  proof (cases "hi < z'")
    case True
    with "3.prems"(1) have c: "lo \<le> hi" "covered (z' # zs) rs" by simp_all
    from "3.prems"(2,3) have "z' \<le> z" by auto
    with True "3.prems"(4) c(1) have "\<not> c < lo" "\<not> c \<le> hi" by simp_all
    with "3.IH"(1)[OF True c(2) "3.prems"(2-5)] show ?thesis by simp
  next
    case False
    with "3.prems"(1) have c: "lo \<le> z'" "z' + 9 \<le> hi" "covered zs ((lo, hi) # rs)" by simp_all
    show ?thesis
    proof (cases "z = z'")
      case True
      with c "3.prems"(4,5) show ?thesis by simp
    next
      case ne: False
      with "3.prems"(3) have "z \<in> set zs" by simp
      moreover from "3.prems"(2) have "sorted zs" by simp
      ultimately show ?thesis using "3.IH"(2)[OF False c(3)] "3.prems"(4,5) by blast
    qed
  qed
qed

lemma digit_zeros_sorted: "sorted digit_zeros"
  unfolding digit_zeros_def by (simp only: sorted2 sorted1 rel_simps simp_thms)

lemma digit_zeros_covered: "covered digit_zeros word_ranges"
  unfolding digit_zeros_def word_ranges_def
  by (simp only: covered.simps rel_simps simp_thms if_True if_False arith_simps cong: if_weak_cong)

lemma digit_range: "is_digit c \<Longrightarrow> \<exists>z\<in>set digit_zeros. z \<le> c \<and> c \<le> z + 9"
  using decimal_in_range[of digit_zeros c] by (auto simp: is_digit_def decimal_def)

lemma digit_is_word: "is_digit c \<Longrightarrow> is_word c"
proof -
  assume "is_digit c"
  from digit_range[OF this] obtain z where "z \<in> set digit_zeros" "z \<le> c" "c \<le> z + 9" by blast
  from covered_in_ranges[OF digit_zeros_covered digit_zeros_sorted this] show ?thesis
    by (simp add: is_word_def)
qed

section \<open>The first result of a pattern on a given word\<close>

text \<open>
  \<open>takes r p w t g g'\<close>: at the text \<open>w @ t\<close> the first result of \<open>r\<close> consumes \<open>w\<close>
  and leaves the groups \<open>g'\<close>.
\<close>

definition takes :: "regex \<Rightarrow> uchar option \<Rightarrow> ustring \<Rightarrow> ustring \<Rightarrow> groups \<Rightarrow> groups \<Rightarrow> bool" where
  "takes r p w t g g' = (first_match r (p, w @ t) g = Some ((adv p w, t), g'))"

lemma takes_Seq:
  "takes a p u (v @ t) g g1 \<Longrightarrow> takes b (adv p u) v t g1 g2 \<Longrightarrow> takes (Seq a b) p (u @ v) t g g2"
  unfolding takes_def using first_Seq[of a "(p, u @ v @ t)" g "((adv p u, v @ t), g1)" b]
  by simp

lemma takes_Eps: "takes Eps p [] t g g"
  by (simp add: takes_def first_match_def)

lemma takes_Cls: "P c \<Longrightarrow> takes (Cls P) p [c] t g g"
  by (simp add: takes_def first_match_def adv_def)

lemma takes_Lit: "takes (Lit c) p [c] t g g"
  by (simp add: takes_def first_match_def adv_def)

lemma takes_Bound: "at_boundary (p, t) \<Longrightarrow> takes Bound p [] t g g"
  by (simp add: takes_def first_match_def)

lemma run_end_append:
  "list_all P w \<Longrightarrow> t = [] \<or> \<not> P (hd t) \<Longrightarrow> run_end P (p, w @ t) = (adv p w, t)"
proof -
  assume w: "list_all P w" and t: "t = [] \<or> \<not> P (hd t)"
  from t have "takeWhile P t = []" by (cases t) auto
  with w have tw: "takeWhile P (w @ t) = w"
    by (simp add: takeWhile_append2 list_all_iff)
  from t have "dropWhile P t = t" by (cases t) auto
  with w have dw: "dropWhile P (w @ t) = t"
    by (simp add: dropWhile_append2 list_all_iff)
  show ?thesis by (simp add: run_end_def tw dw adv_def)
qed

lemma takes_Star_cls:
  "list_all P w \<Longrightarrow> t = [] \<or> \<not> P (hd t) \<Longrightarrow> takes (Star (Cls P)) p w t g g"
  by (simp add: takes_def first_Star_cls run_end_append)

lemma takes_Plus_cls:
  "w \<noteq> [] \<Longrightarrow> list_all P w \<Longrightarrow> t = [] \<or> \<not> P (hd t) \<Longrightarrow> takes (Plus (Cls P)) p w t g g"
proof -
  assume ne: "w \<noteq> []" and w: "list_all P w" and t: "t = [] \<or> \<not> P (hd t)"
  from ne obtain c cs where c: "w = c # cs" by (cases w) auto
  with w have "P c" by simp
  from first_Plus_cls[of P c p "cs @ t" g, OF this] c run_end_append[OF w t, of p]
  show ?thesis by (simp add: takes_def)
qed

lemma takes_Grp: "takes a p w t g g' \<Longrightarrow> takes (Grp n a) p w t g ((n, w) # g')"
  unfolding takes_def using first_Grp[of a "(p, w @ t)" g "((adv p w, t), g')" n]
  by (simp add: capture_def)

lemma takes_Alt_left: "takes a p w t g g' \<Longrightarrow> takes (Alt a b) p w t g g'"
  unfolding takes_def by (rule first_Alt_left)

lemma takes_Alt_right:
  "matches a (p, w @ t) g = [] \<Longrightarrow> takes b p w t g g' \<Longrightarrow> takes (Alt a b) p w t g g'"
  unfolding takes_def by (simp add: first_Alt_right)

lemma takes_Opt: "takes a p w t g g' \<Longrightarrow> takes (Opt a) p w t g g'"
  unfolding Opt_def by (rule takes_Alt_left)

lemma takes_Opt_skip: "matches a (p, t) g = [] \<Longrightarrow> takes (Opt a) p [] t g g"
  unfolding Opt_def using takes_Alt_right[of a p "[]" t g Eps g] by (simp add: takes_Eps)

lemma Lit_none: "t = [] \<or> hd t \<noteq> c \<Longrightarrow> matches (Lit c) (p, t) g = []"
  by (cases t) auto

lemma Grp_none: "matches a cur g = [] \<Longrightarrow> matches (Grp n a) cur g = []"
  by simp

text \<open>Where a search finds its match, when no match can start before.\<close>

lemma search_from_here:
  "takes r p w t [] g' \<Longrightarrow>
     search_from r p (w @ t) = Some \<lparr>pre = [], whole = w, post = (adv p w, t), grps = g'\<rparr>"
  by (auto simp: takes_def first_match_def search_from.simps[of r p "w @ t"] mk_match_def
           split: list.splits)

lemma search_from_skip:
  assumes "\<And>q c cs. \<not> is_digit c \<Longrightarrow> matches r (q, c # cs) [] = []"
    and "\<forall>c\<in>set x. \<not> is_digit c" and "s \<noteq> []"
  shows "search_from r p (x @ s) = map_option (\<lambda>m. m\<lparr>pre := x @ pre m\<rparr>) (search_from r (adv p x) s)"
  using assms(2)
proof (induction x arbitrary: p)
  case Nil
  show ?case by (simp add: option.map_ident)
next
  case (Cons c x)
  from Cons.prems have c: "\<not> is_digit c" and x: "\<forall>c\<in>set x. \<not> is_digit c" by simp_all
  from assms(1)[OF c] have "matches r (p, c # (x @ s)) [] = []" .
  then have "search_from r p ((c # x) @ s) =
      map_option (\<lambda>m. m\<lparr>pre := c # pre m\<rparr>) (search_from r (Some c) (x @ s))"
    by (simp add: search_from.simps[of r p "c # x @ s"])
  also have "\<dots> = map_option (\<lambda>m. m\<lparr>pre := (c # x) @ pre m\<rparr>) (search_from r (adv (Some c) x) s)"
    by (simp add: Cons.IH[OF x] option.map_comp comp_def)
  also have "adv (Some c) x = adv p (c # x)" by (simp add: adv_def)
  finally show ?case .
qed

end
